theory Spec2Isabelle
  imports Complex_Main
begin

section \<open>Numbers, vectors and quaternions\<close>

text \<open>
  The program is JavaScript; every number in it is an IEEE double. The model reads a
  JavaScript number as a \<^typ>\<open>real\<close>: no rounding, no NaN, no infinities, no signed
  zero. Loop counters (\<open>substeps\<close>) are natural numbers.

  \<open>THREE.Vector3\<close> and \<open>THREE.Quaternion\<close> come from the three.js library, which is
  not part of the repository; the few operations the code calls are written here
  after three.js' own definitions (\<open>normalize\<close> divides by \<open>length() || 1\<close>).
\<close>

datatype vec3 = Vector3 (vx: real) (vy: real) (vz: real)

datatype quat = Quaternion (qx: real) (qy: real) (qz: real) (qw: real)

definition dot :: "vec3 \<Rightarrow> vec3 \<Rightarrow> real" where
  "dot a b = vx a * vx b + vy a * vy b + vz a * vz b"

definition crossVectors :: "vec3 \<Rightarrow> vec3 \<Rightarrow> vec3" where
  "crossVectors a b =
     Vector3 (vy a * vz b - vz a * vy b)
             (vz a * vx b - vx a * vz b)
             (vx a * vy b - vy a * vx b)"

definition multiplyScalar :: "vec3 \<Rightarrow> real \<Rightarrow> vec3" where
  "multiplyScalar v k = Vector3 (vx v * k) (vy v * k) (vz v * k)"

definition addv :: "vec3 \<Rightarrow> vec3 \<Rightarrow> vec3" where
  "addv a b = Vector3 (vx a + vx b) (vy a + vy b) (vz a + vz b)"

definition lengthSq :: "vec3 \<Rightarrow> real" where
  "lengthSq v = vx v * vx v + vy v * vy v + vz v * vz v"

definition length3 :: "vec3 \<Rightarrow> real" where
  "length3 v = sqrt (lengthSq v)"

definition normalize :: "vec3 \<Rightarrow> vec3" where
  \<comment> \<open>three.js: \<open>this.divideScalar(this.length() || 1)\<close>\<close>
  "normalize v =
     (let l = length3 v; d = (if l = 0 then 1 else l)
      in Vector3 (vx v / d) (vy v / d) (vz v / d))"

definition setFromAxisAngle :: "vec3 \<Rightarrow> real \<Rightarrow> quat" where
  "setFromAxisAngle axis angle =
     (let halfAngle = angle / 2; s = sin halfAngle
      in Quaternion (vx axis * s) (vy axis * s) (vz axis * s) (cos halfAngle))"

definition applyQuaternion :: "vec3 \<Rightarrow> quat \<Rightarrow> vec3" where
  \<comment> \<open>three.js: \<open>t = 2 * cross(q.xyz, v); v + q.w * t + cross(q.xyz, t)\<close>\<close>
  "applyQuaternion v q =
     (let tx = 2 * (qy q * vz v - qz q * vy v);
          ty = 2 * (qz q * vx v - qx q * vz v);
          tz = 2 * (qx q * vy v - qy q * vx v)
      in Vector3 (vx v + qw q * tx + qy q * tz - qz q * ty)
                 (vy v + qw q * ty + qz q * tx - qx q * tz)
                 (vz v + qw q * tz + qx q * ty - qy q * tx))"

definition clamp :: "real \<Rightarrow> real \<Rightarrow> real \<Rightarrow> real" where
  \<comment> \<open>\<open>THREE.MathUtils.clamp(value, min, max) = Math.max(min, Math.min(max, value))\<close>\<close>
  "clamp v lo hi = max lo (min hi v)"

definition degToRad :: "real \<Rightarrow> real" where
  \<comment> \<open>\<open>THREE.MathUtils.degToRad(d) = d * (Math.PI / 180)\<close>\<close>
  "degToRad d = d * (pi / 180)"

definition atan2 :: "real \<Rightarrow> real \<Rightarrow> real" where
  \<comment> \<open>\<open>Math.atan2(y, x)\<close> on reals\<close>
  "atan2 y x =
     (if 0 < x then arctan (y / x)
      else if x < 0 then (if 0 \<le> y then arctan (y / x) + pi else arctan (y / x) - pi)
      else if 0 < y then pi / 2
      else if y < 0 then - (pi / 2)
      else 0)"

section \<open>The rigid body behind the handle\<close>

text \<open>
  The player body lives in the physics engine (Rapier, an external collaborator). The
  model keeps what the code reads and writes through the handle. The setters store
  their argument; \<open>applyImpulse\<close> and \<open>applyTorqueImpulse\<close> change the velocity at
  once, scaled by the inverse mass and the inverse angular inertia of the ball, as
  the engine documents. The engine's own step is not modelled: between two ticks
  the body may change in any way.
\<close>

record rigidBody =
  translation :: vec3
  rotation :: quat
  linvel :: vec3
  angvel :: vec3
  gravityScale :: real
  invMass :: real
  invInertia :: real

definition setTranslation :: "rigidBody \<Rightarrow> vec3 \<Rightarrow> rigidBody" where
  "setTranslation b p = b\<lparr>translation := p\<rparr>"

definition setRotation :: "rigidBody \<Rightarrow> quat \<Rightarrow> rigidBody" where
  "setRotation b q = b\<lparr>rotation := q\<rparr>"

definition setLinvel :: "rigidBody \<Rightarrow> vec3 \<Rightarrow> rigidBody" where
  "setLinvel b v = b\<lparr>linvel := v\<rparr>"

definition setAngvel :: "rigidBody \<Rightarrow> vec3 \<Rightarrow> rigidBody" where
  "setAngvel b v = b\<lparr>angvel := v\<rparr>"

definition setGravityScale :: "rigidBody \<Rightarrow> real \<Rightarrow> rigidBody" where
  "setGravityScale b g = b\<lparr>gravityScale := g\<rparr>"

definition applyImpulse :: "rigidBody \<Rightarrow> vec3 \<Rightarrow> rigidBody" where
  "applyImpulse b j = b\<lparr>linvel := addv (linvel b) (multiplyScalar j (invMass b))\<rparr>"

definition applyTorqueImpulse :: "rigidBody \<Rightarrow> vec3 \<Rightarrow> rigidBody" where
  "applyTorqueImpulse b t = b\<lparr>angvel := addv (angvel b) (multiplyScalar t (invInertia b))\<rparr>"

definition mass :: "rigidBody \<Rightarrow> real" where
  "mass b = inverse (invMass b)"

section \<open>Player state\<close>

text \<open>
  \<open>PlayerVariables\<close>, restricted to the fields the locomotion code reads or writes.
  \<open>body\<close> is \<open>None\<close> until the physics engine is ready; \<open>collider\<close> tells whether the
  collider handle has been created.
\<close>

record keys =
  key_w :: bool
  key_s :: bool
  key_a :: bool
  key_d :: bool
  key_space :: bool

record playerVariables =
  radius :: real
  body :: "rigidBody option"
  collider :: bool
  torqueStrength :: real
  density :: real
  keys :: keys
  isFlying :: bool
  hasLoggedVelocity :: bool
  velocityInitial :: vec3
  flightTransitionStartTime :: real
  isGrounded :: bool
  airControlStrength :: real
  currentPitch :: real
  currentRoll :: real
  currentYaw :: real
  targetPitch :: real
  targetRoll :: real
  pitchSpeed :: real
  rollSpeed :: real
  maxPitch :: real
  maxRoll :: real
  lastVelocity :: vec3

definition PlayerVariables :: playerVariables where
  \<comment> \<open>the constructor of \<open>PlayerVariables\<close>\<close>
  "PlayerVariables =
     \<lparr> radius = 1, body = None, collider = False, torqueStrength = 2, density = 5,
       keys = \<lparr> key_w = False, key_s = False, key_a = False, key_d = False,
                key_space = False \<rparr>,
       isFlying = False, hasLoggedVelocity = False,
       velocityInitial = Vector3 0 0 0, flightTransitionStartTime = 0,
       isGrounded = False, airControlStrength = 1,
       currentPitch = 0, currentRoll = 0, currentYaw = 0,
       targetPitch = 0, targetRoll = 0,
       pitchSpeed = 2 / 100, rollSpeed = 3 / 100,
       maxPitch = pi / 4, maxRoll = pi / 3,
       lastVelocity = Vector3 0 0 0 \<rparr>"

record oceanMode =
  seaLevel :: real
  exitThreshold :: real
  isActive :: bool
  waterDrag :: real
  waterBuoyancy :: real

definition OceanMode :: oceanMode where
  \<comment> \<open>the constructor of \<open>OceanMode\<close>\<close>
  "OceanMode =
     \<lparr> seaLevel = - 230, exitThreshold = 3, isActive = False,
       waterDrag = 98 / 100, waterBuoyancy = 5 \<rparr>"

text \<open>
  The player object: its variables, whether the collision mesh has been created
  (\<open>player.collisionMesh\<close>, \<open>null\<close> before \<open>createBody\<close> ran) and the ocean mode
  controller. The visual mesh, the glider model and the animations belong to the
  renderer and are not part of the state.
\<close>

record player =
  vars :: playerVariables
  collisionMesh :: bool
  oceanMode :: oceanMode

text \<open>
  What a tick reads from outside the player: the colliders in contact with the
  player's collider, the camera's forward and right directions, the frame time in
  milliseconds, the quaternion of the visual mesh (\<open>None\<close> when there is no mesh)
  and the clock (\<open>Date.now()\<close>).
\<close>

record env =
  contacts :: "nat list"
  forward :: vec3
  right :: vec3
  delta :: real
  meshQuat :: "quat option"
  now :: real

section \<open>Ocean mode (\<open>OceanMode\<close>)\<close>

definition isInOcean :: "player \<Rightarrow> bool \<times> player" where
  "isInOcean p =
     (case body (vars p) of
        None \<Rightarrow> (False, p)
      | Some b \<Rightarrow>
          let position = translation b; om = oceanMode p;
              om' = (if vy position \<le> seaLevel om then om\<lparr>isActive := True\<rparr>
                     else if vy position > seaLevel om + exitThreshold om
                     then om\<lparr>isActive := False\<rparr>
                     else om)
          in (isActive om', p\<lparr>oceanMode := om'\<rparr>))"


section \<open>Flight mode (\<open>FlightMode\<close>)\<close>

text \<open>
  The only place of the locomotion code that can raise: \<open>activate\<close> dereferences
  \<open>this.vars.body\<close> inside the \<open>collisionMesh\<close> guard without testing it.
\<close>

datatype error = TypeError

text \<open>
  \<open>activate\<close>: the toggle. The colour of the collision sphere, the animations and
  the console output are left out; everything written to the variables and to the
  body is kept. \<open>player.mesh\<close> is read through \<open>meshQuat\<close>.
\<close>

definition activate :: "player \<Rightarrow> env \<Rightarrow> error + player" where
  "activate p e =
     (let v = (vars p)\<lparr>isFlying := \<not> isFlying (vars p), hasLoggedVelocity := False\<rparr>
      in if collisionMesh p then
           (case body v of
              None \<Rightarrow> Inl TypeError
            | Some b \<Rightarrow>
                if isFlying v then
                  (let b1 = setGravityScale b 0;
                       b2 = setAngvel b1 (Vector3 0 0 0);
                       vel = linvel b2;
                       horizontalSpeed = sqrt (vx vel * vx vel + vz vel * vz vel);
                       velocityPitch = atan2 (vy vel) horizontalSpeed;
                       velocityYaw = - atan2 (vz vel) (vx vel) + pi
                   in Inr (p\<lparr>vars := v\<lparr>body := Some b2,
                                         velocityInitial := vel,
                                         targetPitch := velocityPitch,
                                         currentPitch := velocityPitch,
                                         targetRoll := 0,
                                         currentRoll := 0,
                                         currentYaw := velocityYaw,
                                         flightTransitionStartTime := now e\<rparr>\<rparr>))
                else
                  (let b1 = (case meshQuat e of
                               None \<Rightarrow> b
                             | Some mq \<Rightarrow> setRotation b mq);
                       b2 = setGravityScale b1 1
                   in Inr (p\<lparr>vars := v\<lparr>body := Some b2,
                                         currentPitch := 0,
                                         currentRoll := 0,
                                         targetPitch := 0,
                                         targetRoll := 0\<rparr>\<rparr>)))
         else Inr (p\<lparr>vars := v\<rparr>))"

text \<open>The scalar pieces of \<open>applyPhysics\<close>, named after its local constants.\<close>

definition alphaStall :: real where
  "alphaStall = degToRad 12"

definition alphaRad :: "real \<Rightarrow> vec3 \<Rightarrow> real" where
  "alphaRad pitch velocity =
     (let velocityAngle =
            atan2 (vy velocity) (sqrt (vx velocity * vx velocity + vz velocity * vz velocity));
          alphaRadUnclamped = pitch - velocityAngle;
          maxAlphaRad = 15 * pi / 180
      in max (- maxAlphaRad) (min maxAlphaRad alphaRadUnclamped))"

definition CL :: "real \<Rightarrow> real" where
  "CL alpha =
     (let alphaAbs = \<bar>alpha\<bar>;
          c = (if alphaAbs < alphaStall then 2 * pi * alpha
               else
                 (let peakCL = 2 * pi * alphaStall * sgn alpha;
                      excessAlpha = alphaAbs - alphaStall;
                      stallDropoff = exp (- excessAlpha * 8)
                  in peakCL * stallDropoff * (3 / 10)))
      in clamp c (- (12 / 10)) (12 / 10))"

definition rho :: real where
  "rho = 1225 / 1000"

definition S :: real where
  "S = 2"

definition q :: "real \<Rightarrow> real" where
  "q speed = (1 / 2) * rho * speed * speed"

definition stallSpeed :: real where
  "stallSpeed = 15"

definition minSpeed :: real where
  "minSpeed = 5"

definition stallFactor :: "real \<Rightarrow> real" where
  "stallFactor speed =
     (if speed < stallSpeed
      then max 0 (((speed - minSpeed) / (stallSpeed - minSpeed)) ^ 2)
      else 1)"

definition liftMagnitude :: "real \<Rightarrow> real \<Rightarrow> real" where
  "liftMagnitude speed alpha = q speed * S * CL alpha * stallFactor speed"

definition applyPhysics :: "player \<Rightarrow> env \<Rightarrow> player" where
  "applyPhysics p e =
     (case body (vars p) of
        None \<Rightarrow> p
      | Some b \<Rightarrow>
          if \<not> isFlying (vars p) then p
          else
            (let velocity = linvel b;
                 speed = sqrt (vx velocity * vx velocity + vy velocity * vy velocity
                               + vz velocity * vz velocity);
                 dt = delta e / 1000;
                 pitch = currentPitch (vars p);
                 roll = currentRoll (vars p);
                 velDir = (if speed > 1 / 10 then normalize velocity else velocity);
                 alpha = alphaRad pitch velocity;
                 refUp = Vector3 0 1 0;
                 gravityForce = Vector3 0 ((- mass b) * (98 / 10)) 0;
                 right0 = crossVectors velDir refUp;
                 right1 = (if lengthSq right0 < 1 / 1000000
                           then crossVectors velDir (Vector3 1 0 0) else right0);
                 rightN = normalize right1;
                 liftDir0 = normalize (crossVectors rightN velDir);
                 liftDir = (if \<bar>roll\<bar> > 1 / 1000
                            then applyQuaternion liftDir0 (setFromAxisAngle velDir roll)
                            else liftDir0);
                 liftForce = multiplyScalar liftDir (liftMagnitude speed alpha);
                 CD0 = 3 / 100;
                 k = 8 / 100;
                 CD = CD0 + k * CL alpha * CL alpha;
                 dragMagnitude = q speed * S * CD;
                 dragForce = multiplyScalar velDir (- dragMagnitude);
                 totalForce = addv (addv (addv (Vector3 0 0 0) gravityForce) liftForce) dragForce;
                 impulse = multiplyScalar totalForce dt;
                 b1 = applyImpulse b impulse;
                 b2 = setAngvel b1 (Vector3 0 0 0)
             in p\<lparr>vars := (vars p)\<lparr>body := Some b2\<rparr>\<rparr>))"

text \<open>
  \<open>updateControls\<close>: the attitude targets and their smoothing. The rotations it
  writes to the glider model, the ball mesh and the axes helper are visual only.
\<close>

definition updateControls :: "player \<Rightarrow> player" where
  "updateControls p =
     (case body (vars p) of
        None \<Rightarrow> p
      | Some b \<Rightarrow>
          if \<not> isFlying (vars p) then p
          else
            (let v = vars p;
                 velocity = linvel b;
                 v1 = (if key_w (keys v)
                       then v\<lparr>targetPitch := max (targetPitch v - pitchSpeed v) (- maxPitch v)\<rparr>
                       else if key_s (keys v)
                       then v\<lparr>targetPitch := min (targetPitch v + pitchSpeed v) (maxPitch v)\<rparr>
                       else v);
                 v2 = (if key_a (keys v1)
                       then v1\<lparr>targetRoll := max (targetRoll v1 - rollSpeed v1) (- maxRoll v1)\<rparr>
                       else if key_d (keys v1)
                       then v1\<lparr>targetRoll := min (targetRoll v1 + rollSpeed v1) (maxRoll v1)\<rparr>
                       else v1);
                 v3 = v2\<lparr>currentPitch :=
                           currentPitch v2 + (targetPitch v2 - currentPitch v2) * (1 / 10)\<rparr>;
                 v4 = v3\<lparr>currentRoll :=
                           currentRoll v3 + (targetRoll v3 - currentRoll v3) * (1 / 10)\<rparr>;
                 yawAngle = atan2 (vz velocity) (vx velocity);
                 v5 = v4\<lparr>currentYaw := - yawAngle + pi\<rparr>
             in p\<lparr>vars := v5\<lparr>body := Some (setAngvel b (Vector3 0 0 0))\<rparr>\<rparr>))"

definition FlightMode_update :: "player \<Rightarrow> env \<Rightarrow> player" where
  "FlightMode_update p e = updateControls (applyPhysics p e)"

section \<open>Ocean mode update\<close>

definition OceanMode_update :: "player \<Rightarrow> env \<Rightarrow> error + player" where
  "OceanMode_update p e =
     (case body (vars p) of
        None \<Rightarrow> Inr p
      | Some _ \<Rightarrow>
          (case (if isFlying (vars p) then activate p e else Inr p) of
             Inl err \<Rightarrow> Inl err
           | Inr p1 \<Rightarrow>
               (case body (vars p1) of
                  None \<Rightarrow> Inl TypeError
                | Some b \<Rightarrow>
                    let om = oceanMode p1;
                        velocity = linvel b;
                        position = translation b;
                        b1 = setLinvel b (Vector3 (vx velocity * waterDrag om)
                                                  (vy velocity * waterDrag om)
                                                  (vz velocity * waterDrag om));
                        depthBelowSurface = seaLevel om - vy position;
                        b2 = (if depthBelowSurface > 0
                              then applyImpulse b1
                                     (Vector3 0 (waterBuoyancy om * min depthBelowSurface 1) 0)
                              else b1);
                        av = angvel b2;
                        b3 = setAngvel b2 (Vector3 (vx av * waterDrag om)
                                                   (vy av * waterDrag om)
                                                   (vz av * waterDrag om))
                    in Inr (p1\<lparr>vars := (vars p1)\<lparr>body := Some b3\<rparr>\<rparr>))))"

section \<open>Air mode and ground mode\<close>

definition AirMode_update :: "player \<Rightarrow> env \<Rightarrow> player" where
  "AirMode_update p e =
     (case body (vars p) of
        None \<Rightarrow> p
      | Some b \<Rightarrow>
          if isGrounded (vars p) \<or> isFlying (vars p) then p
          else
            (let v = vars p;
                 forwardFlat = normalize (Vector3 (vx (forward e)) 0 (vz (forward e)));
                 rightFlat = normalize (Vector3 (vx (right e)) 0 (vz (right e)));
                 k = airControlStrength v;
                 b1 = (if key_w (keys v)
                       then applyImpulse b (Vector3 (vx forwardFlat * k) 0 (vz forwardFlat * k))
                       else b);
                 b2 = (if key_s (keys v)
                       then applyImpulse b1
                              (Vector3 (- vx forwardFlat * k) 0 (- vz forwardFlat * k))
                       else b1);
                 b3 = (if key_a (keys v)
                       then applyImpulse b2 (Vector3 (- vx rightFlat * k) 0 (- vz rightFlat * k))
                       else b2);
                 b4 = (if key_d (keys v)
                       then applyImpulse b3 (Vector3 (vx rightFlat * k) 0 (vz rightFlat * k))
                       else b3)
             in p\<lparr>vars := v\<lparr>body := Some b4\<rparr>\<rparr>))"

definition GroundMode_update :: "player \<Rightarrow> env \<Rightarrow> player" where
  "GroundMode_update p e =
     (case body (vars p) of
        None \<Rightarrow> p
      | Some b \<Rightarrow>
          if \<not> isGrounded (vars p) \<or> isFlying (vars p) then p
          else
            (let v = vars p;
                 k = torqueStrength v;
                 up = Vector3 0 1 0;
                 tf = normalize (crossVectors up (forward e));
                 tr = normalize (crossVectors up (right e));
                 b1 = (if key_w (keys v)
                       then applyTorqueImpulse b (Vector3 (vx tf * k) (vy tf * k) (vz tf * k))
                       else b);
                 b2 = (if key_s (keys v)
                       then applyTorqueImpulse b1
                              (Vector3 (- vx tf * k) (- vy tf * k) (- vz tf * k))
                       else b1);
                 b3 = (if key_a (keys v)
                       then applyTorqueImpulse b2
                              (Vector3 (- vx tr * k) (- vy tr * k) (- vz tr * k))
                       else b2);
                 b4 = (if key_d (keys v)
                       then applyTorqueImpulse b3 (Vector3 (vx tr * k) (vy tr * k) (vz tr * k))
                       else b3)
             in p\<lparr>vars := v\<lparr>body := Some b4\<rparr>\<rparr>))"

section \<open>Physics set-up and the player's tick\<close>

text \<open>
  \<open>createBody\<close> runs once, when the engine is ready: it creates the dynamic body at
  the spawn point (a new body has the identity rotation, no velocity and gravity
  scale 1), the ball collider (whose density fixes the mass of the ball, and with
  it the inertia \<open>2/5 m r\<^sup>2\<close>), gives the first push and creates the collision mesh.
\<close>

definition createBody :: "player \<Rightarrow> player" where
  "createBody p =
     (let v = vars p;
          r = radius v;
          m = density v * ((4 / 3) * pi * r ^ 3);
          b = \<lparr> translation = Vector3 0 r 0,
                rotation = Quaternion 0 0 0 1,
                linvel = Vector3 0 0 0,
                angvel = Vector3 0 0 0,
                gravityScale = 1,
                invMass = inverse m,
                invInertia = inverse ((2 / 5) * m * r ^ 2) \<rparr>;
          b1 = applyImpulse b (Vector3 3 0 0)
      in p\<lparr>vars := v\<lparr>body := Some b1, collider := True\<rparr>, collisionMesh := True\<rparr>)"

definition checkGrounded :: "player \<Rightarrow> nat list \<Rightarrow> player" where
  "checkGrounded p cs =
     (if \<not> collider (vars p) then p
      else p\<lparr>vars := fold (\<lambda>otherCollider v. v\<lparr>isGrounded := True\<rparr>) cs
                          ((vars p)\<lparr>isGrounded := False\<rparr>)\<rparr>)"

text \<open>Which mode controller's \<open>update\<close> a tick called.\<close>

datatype handler = OceanModeUpdate | FlightModeUpdate | AirModeUpdate | GroundModeUpdate

text \<open>
  \<open>Player.update\<close>. The result carries the calls made to the mode controllers, in
  order. The visual updates and the HUD are left out.
\<close>

definition Player_update :: "player \<Rightarrow> env \<Rightarrow> error + (player \<times> handler list)" where
  "Player_update p e =
     (case body (vars p) of
        None \<Rightarrow> Inr (p, [])
      | Some b \<Rightarrow>
          let velocity = linvel b;
              p1 = checkGrounded p (contacts e);
              (inOcean, p2) = isInOcean p1;
              r = (if inOcean
                   then (case OceanMode_update p2 e of
                           Inl err \<Rightarrow> Inl err
                         | Inr p3 \<Rightarrow> Inr (p3, [OceanModeUpdate]))
                   else if isFlying (vars p2)
                   then Inr (FlightMode_update p2 e, [FlightModeUpdate])
                   else if \<not> isGrounded (vars p2)
                   then Inr (AirMode_update p2 e, [AirModeUpdate])
                   else Inr (GroundMode_update p2 e, [GroundModeUpdate]))
          in (case r of
                Inl err \<Rightarrow> Inl err
              | Inr (p4, hs) \<Rightarrow> Inr (p4\<lparr>vars := (vars p4)\<lparr>lastVelocity := velocity\<rparr>\<rparr>, hs)))"

definition Player :: player where
  \<comment> \<open>the constructor of \<open>Player\<close>, before the engine is ready\<close>
  "Player = \<lparr> vars = PlayerVariables, collisionMesh = False, oceanMode = OceanMode \<rparr>"


section \<open>The ramp and its gate (\<open>RampL\<close>)\<close>

record rampState =
  rampX :: real
  vS :: real
  lateralZ :: real
  vZ :: real

text \<open>
  The fields of \<open>RampL\<close> that the physics reads or writes. \<open>computedGateMesh\<close> tells
  whether the gate mesh exists (the constructor creates it). \<open>gateNormal\<close> is the
  horizontal unit normal the constructor derives from the gate's rotation.
\<close>

record rampL =
  gateCenter :: vec3
  gateWidth :: real
  gateHeight :: real
  gateNormal :: vec3
  computedGateMesh :: bool
  playerPreviousPos :: "vec3 option"
  playerPreviousX :: "real option"
  L :: real
  M :: real
  gravity :: real
  substeps :: nat
  playerRadius :: real
  playerRampMode :: bool
  playerBallisticMode :: bool
  rampState :: rampState
  rampOrigin :: vec3

definition RampL :: rampL where
  \<comment> \<open>the constructor of \<open>RampL\<close>; with the configured rotation (\<open>\<pi>/4\<close> about x, then
      \<open>\<pi>/2\<close> about y) the flattened, normalised gate normal is \<open>(1, 0, 0)\<close>\<close>
  "RampL =
     \<lparr> gateCenter = Vector3 236 (- 208) 0, gateWidth = 40, gateHeight = 30,
       gateNormal = Vector3 1 0 0, computedGateMesh = True,
       playerPreviousPos = None, playerPreviousX = None,
       L = 30, M = 13 / 10, gravity = 981 / 100, substeps = 4, playerRadius = 1,
       playerRampMode = False, playerBallisticMode = False,
       rampState = \<lparr> rampX = 0, vS = 0, lateralZ = 0, vZ = 0 \<rparr>,
       rampOrigin = Vector3 (2294 / 10) (- (21465 / 100)) 0 \<rparr>"

definition y :: "rampL \<Rightarrow> real \<Rightarrow> real" where
  "y r x =
     (let L2 = L r * L r
      in ((M r - 1) / L2) * x * x * x + ((2 - M r) / L r) * x * x - x)"

definition dy :: "rampL \<Rightarrow> real \<Rightarrow> real" where
  "dy r x =
     (let L2 = L r * L r
      in 3 * ((M r - 1) / L2) * x * x + 2 * ((2 - M r) / L r) * x - 1)"

definition getNormal :: "rampL \<Rightarrow> real \<Rightarrow> real \<times> real" where
  \<comment> \<open>the pair is \<open>(nx, ny)\<close>\<close>
  "getNormal r x =
     (let slope = dy r x; denom = sqrt (1 + slope * slope)
      in (- slope / denom, 1 / denom))"

text \<open>
  One pass through the body of the substep loop of \<open>stepRampConstraint\<close>: the new
  \<open>(rampX, vS, lateralZ)\<close> and whether the pass left the loop through \<open>break\<close>.
\<close>

definition substep :: "rampL \<Rightarrow> real \<Rightarrow> real \<Rightarrow> real \<times> real \<times> real
                        \<Rightarrow> (real \<times> real \<times> real) \<times> bool" where
  "substep r subDt vZ0 st =
     (case st of (rampX0, vS0, lateralZ0) \<Rightarrow>
        let slope = dy r rampX0;
            slopeSq = slope * slope;
            denom = sqrt (1 + slopeSq);
            aT = (- gravity r * slope) / denom;
            vS1 = vS0 + aT * subDt;
            lateralZ1 = lateralZ0 + vZ0 * subDt;
            dx = (vS1 * subDt) / denom;
            rampX1 = rampX0 + dx;
            (rampX2, vS2) = (if rampX1 < 0 then (0, \<bar>vS1\<bar>) else (rampX1, vS1))
        in if rampX2 \<ge> L r then ((L r, vS2, lateralZ1), True)
           else ((rampX2, vS2, lateralZ1), False))"

text \<open>The \<open>for\<close> loop: at most \<open>n\<close> passes, ended early by the \<open>break\<close>.\<close>

fun substepLoop :: "rampL \<Rightarrow> real \<Rightarrow> real \<Rightarrow> nat \<Rightarrow> real \<times> real \<times> real
                        \<Rightarrow> (real \<times> real \<times> real) \<times> bool" where
  "substepLoop r subDt vZ0 0 st = (st, False)"
| "substepLoop r subDt vZ0 (Suc n) st =
     (case substep r subDt vZ0 st of
        (st', True) \<Rightarrow> (st', True)
      | (st', False) \<Rightarrow> substepLoop r subDt vZ0 n st')"

record stepResult =
  newState :: rampState
  newPosition :: vec3
  newVelocity :: vec3
  exitedRamp :: bool

definition stepRampConstraint :: "rampL \<Rightarrow> rampState \<Rightarrow> real \<Rightarrow> stepResult" where
  "stepRampConstraint r state dt =
     (let subDt = dt / real (substeps r);
          ((rampX1, vS1, lateralZ1), exited) =
             substepLoop r subDt (vZ state) (substeps r)
               (rampX state, vS state, lateralZ state);
          localY = y r rampX1;
          (nx, ny) = getNormal r rampX1;
          pos = Vector3 (vx (rampOrigin r) + rampX1 + nx * playerRadius r)
                        (vy (rampOrigin r) + localY + ny * playerRadius r)
                        (vz (rampOrigin r) + lateralZ1);
          slope = dy r rampX1;
          denom = sqrt (1 + slope * slope);
          tx = 1 / denom;
          ty = slope / denom;
          vel = Vector3 (vS1 * tx) (vS1 * ty) (vZ state)
      in \<lparr> newState = state\<lparr>rampX := rampX1, vS := vS1, lateralZ := lateralZ1\<rparr>,
           newPosition = pos, newVelocity = vel, exitedRamp = exited \<rparr>)"

text \<open>
  \<open>enterRampMode(player)\<close> reads \<open>player.vars.body\<close> and \<open>player.vars.radius\<close>; they
  are its second and third argument here. \<open>radius || 1\<close> takes 1 for a radius of 0.
\<close>

definition enterRampMode :: "rampL \<Rightarrow> rigidBody \<Rightarrow> real \<Rightarrow> rampL \<times> rigidBody" where
  "enterRampMode r b rad =
     (let pos = translation b;
          vel = linvel b;
          localX = vx pos - vx (rampOrigin r);
          rampX1 = max 0 (min localX (L r));
          slope = dy r rampX1;
          denom = sqrt (1 + slope * slope);
          tx = 1 / denom;
          ty = slope / denom;
          vS1 = vx vel * tx + vy vel * ty;
          lateralZ1 = vz pos - vz (rampOrigin r);
          vZ1 = vz vel;
          pr = (if rad = 0 then 1 else rad);
          curveY = y r rampX1;
          (nx, ny) = getNormal r rampX1;
          snappedPos = Vector3 (vx (rampOrigin r) + rampX1 + nx * pr)
                               (vy (rampOrigin r) + curveY + ny * pr)
                               (vz (rampOrigin r) + lateralZ1);
          snappedVel = Vector3 (vS1 * tx) (vS1 * ty) vZ1;
          b1 = setTranslation b snappedPos;
          b2 = setLinvel b1 snappedVel
      in (r\<lparr>rampState := \<lparr> rampX = rampX1, vS = vS1, lateralZ = lateralZ1, vZ = vZ1 \<rparr>,
            playerRadius := pr,
            playerPreviousX := Some (vx snappedPos),
            playerRampMode := True,
            playerBallisticMode := False\<rparr>, b2))"

definition exitRampMode :: "rampL \<Rightarrow> rampL" where
  "exitRampMode r = r\<lparr>playerRampMode := False, playerBallisticMode := True\<rparr>"

text \<open>
  What \<open>update\<close> reports on the console about the gate and the ramp: the line
  \<open>=== GATE CROSSED ===\<close> with its direction, \<open>Entered ramp mode\<close> and
  \<open>Exited ramp mode\<close>. (The \<open>Near gate\<close> diagnostics are left out.)
\<close>

datatype direction = Front | Back

datatype rampEvent = GateCrossed direction | EnteredRampMode | ExitedRampMode

text \<open>The gate test of \<open>update\<close>, named after its local constants.\<close>

definition signedDistance :: "rampL \<Rightarrow> vec3 \<Rightarrow> real" where
  "signedDistance r playerPos =
     dot (Vector3 (vx playerPos - vx (gateCenter r)) 0 (vz playerPos - vz (gateCenter r)))
         (gateNormal r)"

definition withinY :: "rampL \<Rightarrow> vec3 \<Rightarrow> bool" where
  "withinY r playerPos =
     (let halfHeight = gateHeight r / 2
      in vy playerPos \<ge> vy (gateCenter r) - halfHeight
         \<and> vy playerPos \<le> vy (gateCenter r) + halfHeight)"

definition lateralDistance :: "rampL \<Rightarrow> vec3 \<Rightarrow> real" where
  "lateralDistance r playerPos =
     (let toPlayer = Vector3 (vx playerPos - vx (gateCenter r)) 0
                             (vz playerPos - vz (gateCenter r));
          gateRight = Vector3 (- vz (gateNormal r)) 0 (vx (gateNormal r))
      in \<bar>dot toPlayer gateRight\<bar>)"

definition withinWidth :: "rampL \<Rightarrow> vec3 \<Rightarrow> bool" where
  "withinWidth r playerPos = (lateralDistance r playerPos \<le> gateWidth r / 2)"

definition RampL_update :: "rampL \<Rightarrow> player option \<Rightarrow> env
                             \<Rightarrow> rampL \<times> player option \<times> rampEvent list" where
  "RampL_update r po e =
     (case po of
        None \<Rightarrow> (r, po, [])
      | Some p \<Rightarrow>
          (case body (vars p) of
             None \<Rightarrow> (r, po, [])
           | Some b \<Rightarrow>
               let playerPos = translation b;
                   dt = delta e / 1000
               in if playerRampMode r then
                    (let result = stepRampConstraint r (rampState r) dt;
                         r1 = r\<lparr>rampState := newState result\<rparr>;
                         b1 = setTranslation b (newPosition result);
                         b2 = setLinvel b1 (newVelocity result);
                         p1 = p\<lparr>vars := (vars p)\<lparr>body := Some b2\<rparr>\<rparr>
                     in if exitedRamp result
                        then (exitRampMode r1, Some p1, [ExitedRampMode])
                        else (r1, Some p1, []))
                  else if \<not> computedGateMesh r then
                    (r\<lparr>playerPreviousPos := Some playerPos\<rparr>, po, [])
                  else
                    (let sd = signedDistance r playerPos;
                         prevSignedDistance = map_option (signedDistance r) (playerPreviousPos r);
                         (r1, b1, evs) =
                           (case prevSignedDistance of
                              None \<Rightarrow> (r, b, [])
                            | Some prev \<Rightarrow>
                                if withinY r playerPos \<and> withinWidth r playerPos then
                                  (let crossedForward = (prev < 0 \<and> sd \<ge> 0);
                                       crossedBackward = (prev > 0 \<and> sd \<le> 0)
                                   in if crossedForward \<or> crossedBackward then
                                        (if crossedForward \<and> \<not> playerRampMode r then
                                           (let (r', b') = enterRampMode r b (radius (vars p))
                                            in (r', b', [GateCrossed Front, EnteredRampMode]))
                                         else
                                           (r, b, [GateCrossed (if crossedForward then Front
                                                                else Back)]))
                                      else (r, b, []))
                                else (r, b, []))
                     in (r1\<lparr>playerPreviousPos := Some playerPos\<rparr>,
                         Some (p\<lparr>vars := (vars p)\<lparr>body := Some b1\<rparr>\<rparr>), evs))))"

section \<open>The world's tick (\<open>World.update\<close>)\<close>

text \<open>
  The player and the ramp exist once the resources are loaded. The ocean surface
  that \<open>World.update\<close> also updates is a shader and touches nothing here.
\<close>

record world =
  wplayer :: "player option"
  wrampL :: "rampL option"

definition World_update :: "world \<Rightarrow> env
                             \<Rightarrow> error + (world \<times> handler list \<times> rampEvent list)" where
  "World_update w e =
     (case (case wplayer w of
              None \<Rightarrow> Inr (None, [])
            | Some p \<Rightarrow>
                (case Player_update p e of
                   Inl err \<Rightarrow> Inl err
                 | Inr (p', hs) \<Rightarrow> Inr (Some p', hs))) of
        Inl err \<Rightarrow> Inl err
      | Inr (po, hs) \<Rightarrow>
          (case wrampL w of
             None \<Rightarrow> Inr (w\<lparr>wplayer := po\<rparr>, hs, [])
           | Some r \<Rightarrow>
               let (r', po', evs) = RampL_update r po e
               in Inr (\<lparr> wplayer = po', wrampL = Some r' \<rparr>, hs, evs)))"


section \<open>Runs of the program\<close>

text \<open>
  Between two ticks the engine steps the world and may leave the body in any state:
  \<open>engineStep p b\<close> is the player whose body the engine has moved to \<open>b\<close>. A run
  is a list of such bodies, one per tick, each with the tick's surroundings.
\<close>

definition engineStep :: "player \<Rightarrow> rigidBody \<Rightarrow> player" where
  "engineStep p b = p\<lparr>vars := (vars p)\<lparr>body := Some b\<rparr>\<rparr>"

text \<open>The mode controllers called by \<open>Player.update\<close>, tick after tick.\<close>

fun playerTicks :: "player \<Rightarrow> (rigidBody \<times> env) list \<Rightarrow> error + handler list list" where
  "playerTicks p [] = Inr []"
| "playerTicks p ((b, e) # rest) =
     (case Player_update (engineStep p b) e of
        Inl err \<Rightarrow> Inl err
      | Inr (p', hs) \<Rightarrow>
          (case playerTicks p' rest of
             Inl err \<Rightarrow> Inl err
           | Inr hss \<Rightarrow> Inr (hs # hss)))"

text \<open>The events reported by \<open>RampL.update\<close>, tick after tick.\<close>

fun rampTicks :: "rampL \<Rightarrow> player \<Rightarrow> (rigidBody \<times> env) list \<Rightarrow> rampEvent list" where
  "rampTicks r p [] = []"
| "rampTicks r p ((b, e) # rest) =
     (case RampL_update r (Some (engineStep p b)) e of
        (r', Some p', evs) \<Rightarrow> evs @ rampTicks r' p' rest
      | (r', None, evs) \<Rightarrow> evs)"

section \<open>Concrete inputs\<close>

text \<open>
  A ball of unit mass at rest at height \<open>h\<close>, and a quiet tick of 16 ms: no contact,
  the camera looking along x, no mesh.
\<close>

definition bodyAt :: "real \<Rightarrow> rigidBody" where
  "bodyAt h =
     \<lparr> translation = Vector3 0 h 0, rotation = Quaternion 0 0 0 1,
       linvel = Vector3 0 0 0, angvel = Vector3 0 0 0,
       gravityScale = 1, invMass = 1, invInertia = 1 \<rparr>"

definition env0 :: env where
  "env0 = \<lparr> contacts = [], forward = Vector3 1 0 0, right = Vector3 0 0 1,
            delta = 16, meshQuat = None, now = 0 \<rparr>"


text \<open>
  A tick on the ramp with the forward key held: the player is in the air (no
  contact), the camera looks along z, and ramp mode is active.
\<close>

definition steering :: player where
  "steering =
     (let p = engineStep (createBody Player) ((bodyAt 0)\<lparr>translation := Vector3 230 (- 214) 0\<rparr>)
      in p\<lparr>vars := (vars p)\<lparr>keys := (keys (vars p))\<lparr>key_w := True\<rparr>\<rparr>\<rparr>)"

definition lookingAcross :: env where
  "lookingAcross = env0\<lparr>forward := Vector3 0 0 1, right := Vector3 (- 1) 0 0\<rparr>"

definition onRamp :: rampL where
  "onRamp = RampL\<lparr>playerRampMode := True\<rparr>"

definition rampWorld :: world where
  "rampWorld = \<lparr> wplayer = Some steering, wrampL = Some onRamp \<rparr>"

section \<open>Properties\<close>

subsection \<open>What the mode controllers leave alone\<close>

lemma isInOcean_fst:
  "body (vars p) = Some b \<Longrightarrow>
   fst (isInOcean p) =
     (vy (translation b) \<le> seaLevel (oceanMode p)
      \<or> (isActive (oceanMode p)
          \<and> \<not> vy (translation b) > seaLevel (oceanMode p) + exitThreshold (oceanMode p)))"
  by (auto simp: isInOcean_def Let_def)

lemma isInOcean_snd:
  "body (vars p) = Some b \<Longrightarrow>
   snd (isInOcean p) = p\<lparr>oceanMode := (oceanMode p)\<lparr>isActive := fst (isInOcean p)\<rparr>\<rparr>"
  by (auto simp: isInOcean_def Let_def)

lemma createBody_creates:
  "body (vars (createBody p)) \<noteq> None \<and> collider (vars (createBody p))
   \<and> collisionMesh (createBody p)"
  by (simp add: createBody_def Let_def)

lemma activate_body_Some:
  "body (vars p) = Some b \<Longrightarrow>
   \<exists>p' b'. activate p e = Inr p' \<and> body (vars p') = Some b'
     \<and> oceanMode p' = oceanMode p \<and> collisionMesh p' = collisionMesh p
     \<and> collider (vars p') = collider (vars p)
     \<and> isGrounded (vars p') = isGrounded (vars p)
     \<and> translation b' = translation b \<and> linvel b' = linvel b"
  by (auto simp: activate_def Let_def setGravityScale_def setAngvel_def setRotation_def
           split: option.splits)

lemma OceanMode_update_ok:
  "body (vars p) = Some b \<Longrightarrow>
   \<exists>p' b'. OceanMode_update p e = Inr p' \<and> body (vars p') = Some b'
     \<and> oceanMode p' = oceanMode p \<and> collisionMesh p' = collisionMesh p
     \<and> collider (vars p') = collider (vars p)
     \<and> isGrounded (vars p') = isGrounded (vars p)
     \<and> translation b' = translation b"
proof -
  assume b: "body (vars p) = Some b"
  show ?thesis
  proof (cases "isFlying (vars p)")
    case True
    from activate_body_Some[OF b, of e] obtain p1 b1 where
      a: "activate p e = Inr p1" "body (vars p1) = Some b1" "oceanMode p1 = oceanMode p"
         "collisionMesh p1 = collisionMesh p" "collider (vars p1) = collider (vars p)"
         "isGrounded (vars p1) = isGrounded (vars p)" "translation b1 = translation b"
      by blast
    show ?thesis using b True a
      by (simp add: OceanMode_update_def Let_def setLinvel_def setAngvel_def applyImpulse_def)
  next
    case False
    show ?thesis using b False
      by (simp add: OceanMode_update_def Let_def setLinvel_def setAngvel_def applyImpulse_def)
  qed
qed

lemma FlightMode_update_ok:
  "body (vars p) = Some b \<Longrightarrow>
   \<exists>b'. body (vars (FlightMode_update p e)) = Some b'
     \<and> oceanMode (FlightMode_update p e) = oceanMode p
     \<and> collisionMesh (FlightMode_update p e) = collisionMesh p
     \<and> collider (vars (FlightMode_update p e)) = collider (vars p)
     \<and> isGrounded (vars (FlightMode_update p e)) = isGrounded (vars p)
     \<and> isFlying (vars (FlightMode_update p e)) = isFlying (vars p)
     \<and> gravityScale b' = gravityScale b
     \<and> translation b' = translation b"
  by (simp add: FlightMode_update_def applyPhysics_def updateControls_def Let_def
        setAngvel_def applyImpulse_def)

lemma AirMode_update_ok:
  "body (vars p) = Some b \<Longrightarrow>
   \<exists>b'. body (vars (AirMode_update p e)) = Some b'
     \<and> oceanMode (AirMode_update p e) = oceanMode p
     \<and> collisionMesh (AirMode_update p e) = collisionMesh p
     \<and> collider (vars (AirMode_update p e)) = collider (vars p)
     \<and> isGrounded (vars (AirMode_update p e)) = isGrounded (vars p)
     \<and> isFlying (vars (AirMode_update p e)) = isFlying (vars p)
     \<and> gravityScale b' = gravityScale b
     \<and> translation b' = translation b"
  by (simp add: AirMode_update_def Let_def applyImpulse_def)

lemma GroundMode_update_ok:
  "body (vars p) = Some b \<Longrightarrow>
   \<exists>b'. body (vars (GroundMode_update p e)) = Some b'
     \<and> oceanMode (GroundMode_update p e) = oceanMode p
     \<and> collisionMesh (GroundMode_update p e) = collisionMesh p
     \<and> collider (vars (GroundMode_update p e)) = collider (vars p)
     \<and> isGrounded (vars (GroundMode_update p e)) = isGrounded (vars p)
     \<and> isFlying (vars (GroundMode_update p e)) = isFlying (vars p)
     \<and> gravityScale b' = gravityScale b
     \<and> translation b' = translation b"
  by (simp add: GroundMode_update_def Let_def applyTorqueImpulse_def)

subsection \<open>The dispatch of \<open>Player.update\<close>\<close>

lemma fold_isGrounded:
  "fold (\<lambda>otherCollider v. v\<lparr>isGrounded := True\<rparr>) cs v0 =
     (if cs = [] then v0 else v0\<lparr>isGrounded := True\<rparr>)"
  by (induction cs arbitrary: v0) auto

lemma checkGrounded_collider:
  "collider (vars p) \<Longrightarrow>
   checkGrounded p cs = p\<lparr>vars := (vars p)\<lparr>isGrounded := (cs \<noteq> [])\<rparr>\<rparr>"
  by (simp add: checkGrounded_def fold_isGrounded)

lemma checkGrounded_keeps:
  "body (vars (checkGrounded p cs)) = body (vars p)
   \<and> oceanMode (checkGrounded p cs) = oceanMode p
   \<and> collisionMesh (checkGrounded p cs) = collisionMesh p
   \<and> collider (vars (checkGrounded p cs)) = collider (vars p)
   \<and> isFlying (vars (checkGrounded p cs)) = isFlying (vars p)"
  by (simp add: checkGrounded_def fold_isGrounded)

lemma Player_update_dispatch:
  assumes b: "body (vars p) = Some b"
  shows "\<exists>p' b'. Player_update p e =
           Inr (p', [if fst (isInOcean p) then OceanModeUpdate
                     else if isFlying (vars p) then FlightModeUpdate
                     else if \<not> isGrounded (vars (checkGrounded p (contacts e)))
                     then AirModeUpdate else GroundModeUpdate])
         \<and> body (vars p') = Some b'
         \<and> translation b' = translation b
         \<and> oceanMode p' = (oceanMode p)\<lparr>isActive := fst (isInOcean p)\<rparr>
         \<and> collisionMesh p' = collisionMesh p
         \<and> collider (vars p') = collider (vars p)
         \<and> isGrounded (vars p') = isGrounded (vars (checkGrounded p (contacts e)))"
proof -
  define p1 where "p1 = checkGrounded p (contacts e)"
  define p2 where "p2 = snd (isInOcean p1)"
  have k1: "body (vars p1) = Some b" "oceanMode p1 = oceanMode p"
    "collisionMesh p1 = collisionMesh p" "collider (vars p1) = collider (vars p)"
    "isFlying (vars p1) = isFlying (vars p)"
    using b checkGrounded_keeps[of p "contacts e"] by (simp_all add: p1_def)
  have f: "fst (isInOcean p1) = fst (isInOcean p)"
    using isInOcean_fst[OF k1(1)] isInOcean_fst[OF b] k1(2) by simp
  have p2: "p2 = p1\<lparr>oceanMode := (oceanMode p)\<lparr>isActive := fst (isInOcean p)\<rparr>\<rparr>"
    using isInOcean_snd[OF k1(1)] f k1(2) by (simp add: p2_def)
  have io: "isInOcean p1 = (fst (isInOcean p), p2)"
    using f by (simp add: p2_def prod_eq_iff)
  have k2: "body (vars p2) = Some b" "collisionMesh p2 = collisionMesh p"
    "collider (vars p2) = collider (vars p)" "isFlying (vars p2) = isFlying (vars p)"
    "isGrounded (vars p2) = isGrounded (vars p1)"
    "oceanMode p2 = (oceanMode p)\<lparr>isActive := fst (isInOcean p)\<rparr>"
    using k1 by (simp_all add: p2)
  have unf: "Player_update p e =
     (case (if fst (isInOcean p)
            then (case OceanMode_update p2 e of
                    Inl err \<Rightarrow> Inl err
                  | Inr p3 \<Rightarrow> Inr (p3, [OceanModeUpdate]))
            else if isFlying (vars p2)
            then Inr (FlightMode_update p2 e, [FlightModeUpdate])
            else if \<not> isGrounded (vars p2)
            then Inr (AirMode_update p2 e, [AirModeUpdate])
            else Inr (GroundMode_update p2 e, [GroundModeUpdate])) of
        Inl err \<Rightarrow> Inl err
      | Inr (p4, hs) \<Rightarrow> Inr (p4\<lparr>vars := (vars p4)\<lparr>lastVelocity := linvel b\<rparr>\<rparr>, hs))"
    using b io by (simp add: Player_update_def Let_def p1_def[symmetric])
  consider (oc) "fst (isInOcean p)"
    | (fl) "\<not> fst (isInOcean p)" "isFlying (vars p)"
    | (ai) "\<not> fst (isInOcean p)" "\<not> isFlying (vars p)" "\<not> isGrounded (vars p1)"
    | (gr) "\<not> fst (isInOcean p)" "\<not> isFlying (vars p)" "isGrounded (vars p1)"
    by blast
  then show ?thesis
  proof cases
    case oc
    from OceanMode_update_ok[OF k2(1), of e] obtain p3 b3 where
      "OceanMode_update p2 e = Inr p3" "body (vars p3) = Some b3" "oceanMode p3 = oceanMode p2"
      "collisionMesh p3 = collisionMesh p2" "collider (vars p3) = collider (vars p2)"
      "isGrounded (vars p3) = isGrounded (vars p2)" "translation b3 = translation b"
      by blast
    then show ?thesis using oc k2 by (simp add: unf p1_def)
  next
    case fl
    from FlightMode_update_ok[OF k2(1), of e] obtain b3 where
      "body (vars (FlightMode_update p2 e)) = Some b3"
      "oceanMode (FlightMode_update p2 e) = oceanMode p2"
      "collisionMesh (FlightMode_update p2 e) = collisionMesh p2"
      "collider (vars (FlightMode_update p2 e)) = collider (vars p2)"
      "isGrounded (vars (FlightMode_update p2 e)) = isGrounded (vars p2)"
      "translation b3 = translation b"
      by blast
    then show ?thesis using fl k2 by (simp add: unf p1_def)
  next
    case ai
    from AirMode_update_ok[OF k2(1), of e] obtain b3 where
      "body (vars (AirMode_update p2 e)) = Some b3"
      "oceanMode (AirMode_update p2 e) = oceanMode p2"
      "collisionMesh (AirMode_update p2 e) = collisionMesh p2"
      "collider (vars (AirMode_update p2 e)) = collider (vars p2)"
      "isGrounded (vars (AirMode_update p2 e)) = isGrounded (vars p2)"
      "translation b3 = translation b"
      by blast
    then show ?thesis using ai k2 by (simp add: unf p1_def)
  next
    case gr
    from GroundMode_update_ok[OF k2(1), of e] obtain b3 where
      "body (vars (GroundMode_update p2 e)) = Some b3"
      "oceanMode (GroundMode_update p2 e) = oceanMode p2"
      "collisionMesh (GroundMode_update p2 e) = collisionMesh p2"
      "collider (vars (GroundMode_update p2 e)) = collider (vars p2)"
      "isGrounded (vars (GroundMode_update p2 e)) = isGrounded (vars p2)"
      "translation b3 = translation b"
      by blast
    then show ?thesis using gr k2 by (simp add: unf p1_def)
  qed
qed

lemma Player_update_unfold:
  assumes b: "body (vars p) = Some b"
  shows "Player_update p e =
     (let p2 = (checkGrounded p (contacts e))
                 \<lparr>oceanMode := (oceanMode p)\<lparr>isActive := fst (isInOcean p)\<rparr>\<rparr>
      in case (if fst (isInOcean p)
            then (case OceanMode_update p2 e of
                    Inl err \<Rightarrow> Inl err
                  | Inr p3 \<Rightarrow> Inr (p3, [OceanModeUpdate]))
            else if isFlying (vars p)
            then Inr (FlightMode_update p2 e, [FlightModeUpdate])
            else if \<not> isGrounded (vars p2)
            then Inr (AirMode_update p2 e, [AirModeUpdate])
            else Inr (GroundMode_update p2 e, [GroundModeUpdate])) of
        Inl err \<Rightarrow> Inl err
      | Inr (p4, hs) \<Rightarrow> Inr (p4\<lparr>vars := (vars p4)\<lparr>lastVelocity := linvel b\<rparr>\<rparr>, hs))"
proof -
  define p1 where "p1 = checkGrounded p (contacts e)"
  define p2 where "p2 = snd (isInOcean p1)"
  have k1: "body (vars p1) = Some b" "oceanMode p1 = oceanMode p"
    "isFlying (vars p1) = isFlying (vars p)"
    using b checkGrounded_keeps[of p "contacts e"] by (simp_all add: p1_def)
  have f: "fst (isInOcean p1) = fst (isInOcean p)"
    using isInOcean_fst[OF k1(1)] isInOcean_fst[OF b] k1(2) by simp
  have p2: "p2 = p1\<lparr>oceanMode := (oceanMode p)\<lparr>isActive := fst (isInOcean p)\<rparr>\<rparr>"
    using isInOcean_snd[OF k1(1)] f k1(2) by (simp add: p2_def)
  have io: "isInOcean p1 = (fst (isInOcean p), p2)"
    using f by (simp add: p2_def prod_eq_iff)
  have fl: "isFlying (vars p2) = isFlying (vars p)" using k1 by (simp add: p2)
  show ?thesis
    using b io fl by (simp add: Player_update_def Let_def p1_def[symmetric] p2[symmetric])
qed

subsection \<open>One mode controller per tick\<close>

text \<open>
  C5. In a tick in which the body (and with it the collider) exists, \<open>Player.update\<close>
  calls exactly one mode controller: the ocean mode when the submersion test holds,
  else the flight mode when the flight toggle is engaged, else the ground mode when
  the tick's contact pairs are not empty, else the air mode; and the grounded flag
  it leaves is exactly "there is a contact pair in this tick". The player after the
  tick is the result of that controller, run on the player with the grounded flag
  and the submersion flag of this tick, with the velocity read at the start of the
  tick stored as last velocity.
\<close>

theorem C5_exactly_one_handler:
  assumes "body (vars p) = Some b" and "collider (vars p)"
  shows "\<exists>p'. Player_update p e =
            Inr (p', [if fst (isInOcean p) then OceanModeUpdate
                      else if isFlying (vars p) then FlightModeUpdate
                      else if contacts e \<noteq> [] then GroundModeUpdate
                      else AirModeUpdate])
          \<and> isGrounded (vars p') = (contacts e \<noteq> [])
          \<and> (let p2 = p\<lparr>vars := (vars p)\<lparr>isGrounded := (contacts e \<noteq> [])\<rparr>,
                        oceanMode := (oceanMode p)\<lparr>isActive := fst (isInOcean p)\<rparr>\<rparr>
              in p2 = snd (isInOcean (checkGrounded p (contacts e)))
               \<and> (fst (isInOcean p) \<longrightarrow>
                    (\<exists>p3. OceanMode_update p2 e = Inr p3
                       \<and> p' = p3\<lparr>vars := (vars p3)\<lparr>lastVelocity := linvel b\<rparr>\<rparr>))
               \<and> (\<not> fst (isInOcean p) \<and> isFlying (vars p) \<longrightarrow>
                    p' = (FlightMode_update p2 e)
                           \<lparr>vars := (vars (FlightMode_update p2 e))\<lparr>lastVelocity := linvel b\<rparr>\<rparr>)
               \<and> (\<not> fst (isInOcean p) \<and> \<not> isFlying (vars p) \<and> contacts e \<noteq> [] \<longrightarrow>
                    p' = (GroundMode_update p2 e)
                           \<lparr>vars := (vars (GroundMode_update p2 e))\<lparr>lastVelocity := linvel b\<rparr>\<rparr>)
               \<and> (\<not> fst (isInOcean p) \<and> \<not> isFlying (vars p) \<and> contacts e = [] \<longrightarrow>
                    p' = (AirMode_update p2 e)
                           \<lparr>vars := (vars (AirMode_update p2 e))\<lparr>lastVelocity := linvel b\<rparr>\<rparr>))"
proof -
  define p2 where "p2 = p\<lparr>vars := (vars p)\<lparr>isGrounded := (contacts e \<noteq> [])\<rparr>,
                        oceanMode := (oceanMode p)\<lparr>isActive := fst (isInOcean p)\<rparr>\<rparr>"
  have cg: "checkGrounded p (contacts e) = p\<lparr>vars := (vars p)\<lparr>isGrounded := (contacts e \<noteq> [])\<rparr>\<rparr>"
    using assms(2) by (rule checkGrounded_collider)
  have p2eq: "(checkGrounded p (contacts e))
                 \<lparr>oceanMode := (oceanMode p)\<lparr>isActive := fst (isInOcean p)\<rparr>\<rparr> = p2"
    by (simp add: cg p2_def)
  have b1: "body (vars (checkGrounded p (contacts e))) = Some b"
    using assms(1) by (simp add: cg)
  have f1: "fst (isInOcean (checkGrounded p (contacts e))) = fst (isInOcean p)"
    using isInOcean_fst[OF b1] isInOcean_fst[OF assms(1)] by (simp add: cg)
  have sn: "p2 = snd (isInOcean (checkGrounded p (contacts e)))"
    using isInOcean_snd[OF b1] f1 by (simp add: cg p2_def)
  have k2: "body (vars p2) = Some b" "isGrounded (vars p2) = (contacts e \<noteq> [])"
    "isFlying (vars p2) = isFlying (vars p)"
    using assms(1) by (simp_all add: p2_def)
  note unf = Player_update_unfold[OF assms(1), of e, unfolded Let_def p2eq]
  consider (oc) "fst (isInOcean p)"
    | (fl) "\<not> fst (isInOcean p)" "isFlying (vars p)"
    | (gr) "\<not> fst (isInOcean p)" "\<not> isFlying (vars p)" "contacts e \<noteq> []"
    | (ai) "\<not> fst (isInOcean p)" "\<not> isFlying (vars p)" "contacts e = []"
    by blast
  then have "\<exists>p'. Player_update p e =
            Inr (p', [if fst (isInOcean p) then OceanModeUpdate
                      else if isFlying (vars p) then FlightModeUpdate
                      else if contacts e \<noteq> [] then GroundModeUpdate
                      else AirModeUpdate])
          \<and> isGrounded (vars p') = (contacts e \<noteq> [])
          \<and> p2 = snd (isInOcean (checkGrounded p (contacts e)))
          \<and> (fst (isInOcean p) \<longrightarrow>
                    (\<exists>p3. OceanMode_update p2 e = Inr p3
                       \<and> p' = p3\<lparr>vars := (vars p3)\<lparr>lastVelocity := linvel b\<rparr>\<rparr>))
          \<and> (\<not> fst (isInOcean p) \<and> isFlying (vars p) \<longrightarrow>
                    p' = (FlightMode_update p2 e)
                           \<lparr>vars := (vars (FlightMode_update p2 e))\<lparr>lastVelocity := linvel b\<rparr>\<rparr>)
          \<and> (\<not> fst (isInOcean p) \<and> \<not> isFlying (vars p) \<and> contacts e \<noteq> [] \<longrightarrow>
                    p' = (GroundMode_update p2 e)
                           \<lparr>vars := (vars (GroundMode_update p2 e))\<lparr>lastVelocity := linvel b\<rparr>\<rparr>)
          \<and> (\<not> fst (isInOcean p) \<and> \<not> isFlying (vars p) \<and> contacts e = [] \<longrightarrow>
                    p' = (AirMode_update p2 e)
                           \<lparr>vars := (vars (AirMode_update p2 e))\<lparr>lastVelocity := linvel b\<rparr>\<rparr>)"
  proof cases
    case oc
    from OceanMode_update_ok[OF k2(1), of e] obtain p3 where
      o: "OceanMode_update p2 e = Inr p3" and g: "isGrounded (vars p3) = isGrounded (vars p2)"
      by blast
    show ?thesis
      using oc o g k2 sn by (simp add: unf)
  next
    case fl
    from FlightMode_update_ok[OF k2(1), of e]
    have g: "isGrounded (vars (FlightMode_update p2 e)) = isGrounded (vars p2)" by blast
    show ?thesis
      using fl g k2 sn by (simp add: unf)
  next
    case gr
    from GroundMode_update_ok[OF k2(1), of e]
    have g: "isGrounded (vars (GroundMode_update p2 e)) = isGrounded (vars p2)" by blast
    show ?thesis
      using gr g k2 sn by (simp add: unf)
  next
    case ai
    from AirMode_update_ok[OF k2(1), of e]
    have g: "isGrounded (vars (AirMode_update p2 e)) = isGrounded (vars p2)" by blast
    show ?thesis
      using ai g k2 sn by (simp add: unf)
  qed
  then show ?thesis unfolding Let_def p2_def .
qed


theorem C5_exactly_one_handler_witness:
  "map_sum id snd (Player_update (createBody Player) (env0\<lparr>contacts := [7]\<rparr>))
     = Inr [GroundModeUpdate]
   \<and> map_sum id snd (Player_update (createBody Player) env0) = Inr [AirModeUpdate]
   \<and> map_option linvel (body (vars steering)) = Some (Vector3 0 0 0)
   \<and> map_option angvel (body (vars steering)) = Some (Vector3 0 0 0)
   \<and> snd (projr (Player_update steering lookingAcross)) = [AirModeUpdate]
   \<and> map_option linvel (body (vars (fst (projr (Player_update steering lookingAcross)))))
       = Some (Vector3 0 0 1)
   \<and> snd (projr (Player_update steering (lookingAcross\<lparr>contacts := [7]\<rparr>)))
       = [GroundModeUpdate]
   \<and> map_option angvel
        (body (vars (fst (projr (Player_update steering (lookingAcross\<lparr>contacts := [7]\<rparr>))))))
       = Some (Vector3 2 0 0)"
proof -
  have b: "body (vars (createBody Player)) =
             Some (applyImpulse
                    \<lparr> translation = Vector3 0 1 0, rotation = Quaternion 0 0 0 1,
                      linvel = Vector3 0 0 0, angvel = Vector3 0 0 0, gravityScale = 1,
                      invMass = inverse (5 * ((4 / 3) * pi * 1 ^ 3)),
                      invInertia = inverse ((2 / 5) * (5 * ((4 / 3) * pi * 1 ^ 3)) * 1 ^ 2) \<rparr>
                    (Vector3 3 0 0))"
    by (simp add: createBody_def Player_def PlayerVariables_def Let_def)
  have c: "collider (vars (createBody Player))"
    by (simp add: createBody_def Let_def)
  have o: "\<not> fst (isInOcean (createBody Player))"
    by (simp add: isInOcean_fst[OF b] applyImpulse_def)
       (simp add: createBody_def Player_def OceanMode_def Let_def)
  have f: "\<not> isFlying (vars (createBody Player))"
    by (simp add: createBody_def Player_def PlayerVariables_def Let_def)
  from C5_exactly_one_handler[OF b c, of "env0\<lparr>contacts := [7]\<rparr>"]
       C5_exactly_one_handler[OF b c, of env0] o f
  have first: "map_sum id snd (Player_update (createBody Player) (env0\<lparr>contacts := [7]\<rparr>))
                 = Inr [GroundModeUpdate]
               \<and> map_sum id snd (Player_update (createBody Player) env0) = Inr [AirModeUpdate]"
    by (auto simp: env0_def)
  let ?b = "(bodyAt 0)\<lparr>translation := Vector3 230 (- 214) 0\<rparr>"
  have sb: "body (vars steering) = Some ?b"
    by (simp add: steering_def engineStep_def Let_def)
  have sc: "collider (vars steering)" "\<not> isFlying (vars steering)"
    "keys (vars steering) = \<lparr> key_w = True, key_s = False, key_a = False, key_d = False,
                                key_space = False \<rparr>"
    "airControlStrength (vars steering) = 1" "torqueStrength (vars steering) = 2"
    by (simp_all add: steering_def engineStep_def Let_def createBody_def Player_def
          PlayerVariables_def)
  have so: "\<not> fst (isInOcean steering)"
    unfolding isInOcean_fst[OF sb]
    by (simp add: steering_def engineStep_def Let_def createBody_def Player_def OceanMode_def)
  have n: "normalize (Vector3 0 0 1) = Vector3 0 0 1" "normalize (Vector3 1 0 0) = Vector3 1 0 0"
    "normalize (Vector3 (- 1) 0 0) = Vector3 (- 1) 0 0"
    "normalize (Vector3 0 0 (- 1)) = Vector3 0 0 (- 1)"
    by (simp_all add: normalize_def length3_def lengthSq_def Let_def)
  have ca: "contacts lookingAcross = []" "forward lookingAcross = Vector3 0 0 1"
    "right lookingAcross = Vector3 (- 1) 0 0"
    by (simp_all add: lookingAcross_def env0_def)
  from C5_exactly_one_handler[OF sb sc(1), of lookingAcross] so sc(2) ca(1)
  obtain pa where
    ua: "Player_update steering lookingAcross = Inr (pa, [AirModeUpdate])"
    and pa: "pa = (AirMode_update
                    (steering\<lparr>vars := (vars steering)\<lparr>isGrounded := False\<rparr>,
                       oceanMode := (oceanMode steering)\<lparr>isActive := False\<rparr>\<rparr>) lookingAcross)
                  \<lparr>vars := (vars (AirMode_update
                    (steering\<lparr>vars := (vars steering)\<lparr>isGrounded := False\<rparr>,
                       oceanMode := (oceanMode steering)\<lparr>isActive := False\<rparr>\<rparr>) lookingAcross))
                     \<lparr>lastVelocity := linvel ?b\<rparr>\<rparr>"
    by (auto simp: Let_def)
  have la: "map_option linvel (body (vars pa)) = Some (Vector3 0 0 1)"
    unfolding pa using sb sc
    by (simp add: AirMode_update_def Let_def ca n applyImpulse_def addv_def
          multiplyScalar_def bodyAt_def)
  from C5_exactly_one_handler[OF sb sc(1), of "lookingAcross\<lparr>contacts := [7]\<rparr>"] so sc(2)
  obtain pg where
    ug: "Player_update steering (lookingAcross\<lparr>contacts := [7]\<rparr>) = Inr (pg, [GroundModeUpdate])"
    and pg: "pg = (GroundMode_update
                    (steering\<lparr>vars := (vars steering)\<lparr>isGrounded := True\<rparr>,
                       oceanMode := (oceanMode steering)\<lparr>isActive := False\<rparr>\<rparr>)
                    (lookingAcross\<lparr>contacts := [7]\<rparr>))
                  \<lparr>vars := (vars (GroundMode_update
                    (steering\<lparr>vars := (vars steering)\<lparr>isGrounded := True\<rparr>,
                       oceanMode := (oceanMode steering)\<lparr>isActive := False\<rparr>\<rparr>)
                    (lookingAcross\<lparr>contacts := [7]\<rparr>)))
                     \<lparr>lastVelocity := linvel ?b\<rparr>\<rparr>"
    by (auto simp: Let_def)
  have cr: "crossVectors (Vector3 0 1 0) (Vector3 0 0 1) = Vector3 1 0 0"
    "crossVectors (Vector3 0 1 0) (Vector3 (- 1) 0 0) = Vector3 0 0 1"
    by (simp_all add: crossVectors_def)
  have lg: "map_option angvel (body (vars pg)) = Some (Vector3 2 0 0)"
    unfolding pg using sb sc
    by (simp add: GroundMode_update_def Let_def ca cr n applyTorqueImpulse_def addv_def
          multiplyScalar_def bodyAt_def)
  have s0: "map_option linvel (body (vars steering)) = Some (Vector3 0 0 0)"
    "map_option angvel (body (vars steering)) = Some (Vector3 0 0 0)"
    by (simp_all add: sb bodyAt_def)
  show ?thesis using first s0 ua la ug lg by simp
qed

subsection \<open>The submersion test and its hysteresis\<close>

lemma playerTicks_submerged:
  "isActive (oceanMode p) \<Longrightarrow>
   \<forall>(b, e) \<in> set run. vy (translation b) \<le> seaLevel (oceanMode p) + exitThreshold (oceanMode p) \<Longrightarrow>
   playerTicks p run = Inr (replicate (length run) [OceanModeUpdate])"
proof (induction run arbitrary: p)
  case Nil
  then show ?case by simp
next
  case (Cons x run)
  obtain b e where x: "x = (b, e)" by (cases x)
  let ?q = "engineStep p b"
  have qb: "body (vars ?q) = Some b" and qo: "oceanMode ?q = oceanMode p"
    by (simp_all add: engineStep_def)
  have low: "vy (translation b) \<le> seaLevel (oceanMode p) + exitThreshold (oceanMode p)"
    using Cons.prems(2) x by simp
  have sub: "fst (isInOcean ?q)"
    using isInOcean_fst[OF qb] qo Cons.prems(1) low by auto
  from Player_update_dispatch[OF qb, of e] sub qo obtain p' where
    u: "Player_update ?q e = Inr (p', [OceanModeUpdate])"
    and o: "oceanMode p' = (oceanMode p)\<lparr>isActive := True\<rparr>"
    by auto
  have "playerTicks p' run = Inr (replicate (length run) [OceanModeUpdate])"
    using Cons.IH[of p'] Cons.prems(2) o by simp
  then show ?case using u x by simp
qed

text \<open>
  C4. The submersion test has a one-sided hysteresis of 3 above the sea level: a body
  at or below the sea level enters the ocean mode; while the mode is active the test
  fails exactly when the body is strictly above sea level + 3; and from an active
  mode, as long as the engine keeps the body at or below sea level + 3 (oscillating
  there or not), every tick of \<open>Player.update\<close> runs the ocean mode controller.
\<close>

theorem C4_submerged_hysteresis:
  assumes "body (vars p) = Some b" and "exitThreshold (oceanMode p) = 3"
  shows "(vy (translation b) \<le> seaLevel (oceanMode p) \<longrightarrow>
            fst (isInOcean p) \<and> isActive (oceanMode (snd (isInOcean p))))
       \<and> (isActive (oceanMode p) \<longrightarrow>
            (\<not> fst (isInOcean p) \<longleftrightarrow> vy (translation b) > seaLevel (oceanMode p) + 3))
       \<and> (isActive (oceanMode p)
            \<and> (\<forall>(b', e) \<in> set run. vy (translation b') \<le> seaLevel (oceanMode p) + 3) \<longrightarrow>
            playerTicks p run = Inr (replicate (length run) [OceanModeUpdate]))"
proof (intro conjI impI)
  assume "vy (translation b) \<le> seaLevel (oceanMode p)"
  then show "fst (isInOcean p)" using isInOcean_fst[OF assms(1)] by simp
  then show "isActive (oceanMode (snd (isInOcean p)))"
    using isInOcean_snd[OF assms(1)] by simp
next
  assume "isActive (oceanMode p)"
  then show "(\<not> fst (isInOcean p)) = (vy (translation b) > seaLevel (oceanMode p) + 3)"
    using isInOcean_fst[OF assms(1)] assms(2) by auto
next
  assume "isActive (oceanMode p)
            \<and> (\<forall>(b', e) \<in> set run. vy (translation b') \<le> seaLevel (oceanMode p) + 3)"
  then show "playerTicks p run = Inr (replicate (length run) [OceanModeUpdate])"
    using playerTicks_submerged[of p run] assms(2) by simp
qed

theorem C4_submerged_hysteresis_witness:
  "fst (isInOcean (engineStep Player (bodyAt (- 230))))
   \<and> playerTicks (snd (isInOcean (engineStep Player (bodyAt (- 230)))))
        [(bodyAt (- 227), env0), (bodyAt (- 230), env0), (bodyAt (- 227), env0),
         (bodyAt (- 229), env0)]
      = Inr [[OceanModeUpdate], [OceanModeUpdate], [OceanModeUpdate], [OceanModeUpdate]]
   \<and> \<not> fst (isInOcean (engineStep (snd (isInOcean (engineStep Player (bodyAt (- 230)))))
                          (bodyAt (- 226))))"
proof -
  let ?p0 = "engineStep Player (bodyAt (- 230))"
  let ?p1 = "snd (isInOcean ?p0)"
  let ?run = "[(bodyAt (- 227), env0), (bodyAt (- 230), env0), (bodyAt (- 227), env0),
               (bodyAt (- 229), env0)]"
  have b0: "body (vars ?p0) = Some (bodyAt (- 230))" by (simp add: engineStep_def)
  have t0: "exitThreshold (oceanMode ?p0) = 3"
    by (simp add: engineStep_def Player_def OceanMode_def)
  have s0: "seaLevel (oceanMode ?p0) = - 230"
    by (simp add: engineStep_def Player_def OceanMode_def)
  have enter: "fst (isInOcean ?p0) \<and> isActive (oceanMode ?p1)"
    using C4_submerged_hysteresis[OF b0 t0, of "[]"] s0 by (simp add: bodyAt_def)
  have om1: "oceanMode ?p1 = (oceanMode ?p0)\<lparr>isActive := True\<rparr>"
    using isInOcean_snd[OF b0] enter by simp
  have b1: "body (vars ?p1) = Some (bodyAt (- 230))"
    using isInOcean_snd[OF b0] b0 by simp
  have t1: "exitThreshold (oceanMode ?p1) = 3" and s1: "seaLevel (oceanMode ?p1) = - 230"
    using om1 t0 s0 by simp_all
  have run: "playerTicks ?p1 ?run = Inr (replicate (length ?run) [OceanModeUpdate])"
    using C4_submerged_hysteresis[OF b1 t1, of ?run] enter s1 by (simp add: bodyAt_def)
  let ?p2 = "engineStep ?p1 (bodyAt (- 226))"
  have b2: "body (vars ?p2) = Some (bodyAt (- 226))" by (simp add: engineStep_def)
  have o2: "oceanMode ?p2 = oceanMode ?p1" by (simp add: engineStep_def)
  have out: "\<not> fst (isInOcean ?p2)"
    using C4_submerged_hysteresis[OF b2, of "[]"] o2 t1 s1 enter by (simp add: bodyAt_def)
  show ?thesis using enter run out by simp
qed

subsection \<open>The flight toggle before the physics is set up\<close>






subsection \<open>The flight toggle with the collision mesh in place\<close>








subsection \<open>The lift coefficient\<close>

lemma pi_ge_3: "3 \<le> pi"
proof -
  have "sin (pi / 6) \<le> pi / 6" by (rule sin_x_le_x) simp
  then show ?thesis by (simp add: sin_30)
qed

lemma sin_le_quintic:
  fixes t :: real
  assumes "0 \<le> t"
  shows "sin t \<le> t - t ^ 3 / 6 + t ^ 5 / 120"
proof -
  have "\<bar>sin t - (\<Sum>m<5. sin_coeff m * t ^ m)\<bar> \<le> inverse (fact 5) * \<bar>t\<bar> ^ 5"
    by (rule Maclaurin_sin_bound)
  moreover have "(\<Sum>m<5. sin_coeff m * t ^ m) = t - t ^ 3 / 6"
  proof -
    have s: "{..<5::nat} = {0, 1, 2, 3, 4}" by auto
    have c: "sin_coeff (Suc 0) = 1" "sin_coeff 2 = 0" "sin_coeff 3 = - 1 / 6"
      "sin_coeff 4 = 0"
      by (simp_all add: sin_coeff_def fact_numeral)
    show ?thesis by (simp add: s c)
  qed
  moreover have "inverse (fact 5) * \<bar>t\<bar> ^ 5 = t ^ 5 / 120"
    using assms by (simp add: fact_numeral)
  ultimately show ?thesis by linarith
qed

lemma pi_ge_312: "312 / 100 \<le> pi"
proof (rule ccontr)
  assume "\<not> 312 / 100 \<le> pi"
  then have lt: "pi / 6 < 52 / 100" by simp
  have ge: "1 / 2 \<le> pi / 6" using pi_ge_3 by simp
  let ?t = "pi / 6"
  have c3: "(1 / 2) ^ 3 \<le> ?t ^ 3" using ge by (intro power_mono) auto
  have c5: "?t ^ 5 \<le> (52 / 100) ^ 5" using lt by (intro power_mono) auto
  have "1 / 2 \<le> ?t - ?t ^ 3 / 6 + ?t ^ 5 / 120"
    using sin_le_quintic[of ?t] by (simp add: sin_30)
  moreover have "(1 / 2 :: real) ^ 3 = 1 / 8" "(52 / 100 :: real) ^ 5 \<le> 4 / 100"
    by (simp_all add: power_divide)
  ultimately show False using lt c3 c5 by linarith
qed

lemma alphaStall_eq: "alphaStall = pi / 15"
  by (simp add: alphaStall_def degToRad_def)

lemma alphaStall_pos: "0 < alphaStall"
  by (simp add: alphaStall_eq)

lemma CL_linear:
  "\<bar>a\<bar> < alphaStall \<Longrightarrow> CL a = clamp (2 * pi * a) (- (12 / 10)) (12 / 10)"
  by (simp add: CL_def Let_def)

lemma CL_post_stall:
  "alphaStall \<le> \<bar>a\<bar> \<Longrightarrow>
   CL a = clamp (2 * pi * alphaStall * sgn a * exp (- (\<bar>a\<bar> - alphaStall) * 8) * (3 / 10))
            (- (12 / 10)) (12 / 10)"
  by (simp add: CL_def Let_def)

lemma CL_range: "- (12 / 10) \<le> CL a \<and> CL a \<le> 12 / 10"
  by (simp add: CL_def Let_def clamp_def)

lemma peak_bound: "2 * pi * alphaStall * (3 / 10) < 12 / 10"
proof -
  have "pi * pi < 4 * 4" using pi_less_4 pi_gt_zero by (intro mult_strict_mono) auto
  then show ?thesis by (simp add: alphaStall_eq)
qed

lemma CL_post_stall_exact:
  assumes "alphaStall \<le> \<bar>a\<bar>"
  shows "CL a = 2 * pi * alphaStall * sgn a * exp (- (\<bar>a\<bar> - alphaStall) * 8) * (3 / 10)"
    and "\<bar>CL a\<bar> \<le> 2 * pi * alphaStall * (3 / 10)"
proof -
  let ?d = "exp (- (\<bar>a\<bar> - alphaStall) * 8)"
  have d: "0 < ?d" "?d \<le> 1" using assms by simp_all
  let ?c = "2 * pi * alphaStall * sgn a * ?d * (3 / 10)"
  have k: "0 \<le> 2 * pi * alphaStall * (3 / 10)" using alphaStall_pos by simp
  have "\<bar>?c\<bar> = (2 * pi * alphaStall * (3 / 10)) * (\<bar>sgn a\<bar> * ?d)"
    using alphaStall_pos by (simp add: abs_mult)
  also have "\<dots> \<le> (2 * pi * alphaStall * (3 / 10)) * 1"
  proof (rule mult_left_mono[OF _ k])
    have "\<bar>sgn a\<bar> \<le> 1" by (simp add: sgn_if)
    then have "\<bar>sgn a\<bar> * ?d \<le> 1 * 1" using d by (intro mult_mono) auto
    then show "\<bar>sgn a\<bar> * ?d \<le> 1" by simp
  qed
  finally have le: "\<bar>?c\<bar> \<le> 2 * pi * alphaStall * (3 / 10)" by simp
  have "CL a = clamp ?c (- (12 / 10)) (12 / 10)"
    using CL_post_stall[OF assms] by simp
  also have "\<dots> = ?c" using le peak_bound by (simp add: clamp_def)
  finally show "CL a = ?c" .
  then show "\<bar>CL a\<bar> \<le> 2 * pi * alphaStall * (3 / 10)" using le by simp
qed

lemma CL_below_stall_clamped:
  assumes "12 / 10 \<le> 2 * pi * a" and "a < alphaStall"
  shows "CL a = 12 / 10"
proof -
  have "0 < a"
  proof (rule ccontr)
    assume "\<not> 0 < a"
    then have "2 * pi * a \<le> 0" by (simp add: mult_nonneg_nonpos)
    with assms(1) show False by simp
  qed
  then have "\<bar>a\<bar> < alphaStall" using assms(2) by simp
  then show ?thesis using assms(1) by (simp add: CL_linear clamp_def)
qed

text \<open>
  C6. The stall angle is 12 degrees. For an angle of attack of magnitude
  below it the lift coefficient is \<open>2\<pi>\<alpha>\<close> clamped to \<open>[-1.2, 1.2]\<close> (so it is
  \<open>2\<pi>\<alpha>\<close> itself as long as that lies in the range, and 1.2 from about 10.9
  degrees up to the stall angle). At and beyond the stall angle it is 30 percent of
  the peak \<open>2\<pi>\<alpha>\<^sub>s\<^sub>t\<^sub>a\<^sub>l\<^sub>l\<close>, with the sign of \<open>\<alpha>\<close>, times
  \<open>exp (-8 (|\<alpha>| - \<alpha>\<^sub>s\<^sub>t\<^sub>a\<^sub>l\<^sub>l))\<close>. It always lies in \<open>[-1.2, 1.2]\<close>. It is not
  continuous at the stall angle: just below it the value is 1.2, at it and above it
  the value is at most 0.3 times the peak, which is below 0.64.
\<close>

theorem C6_lift_coefficient:
  "alphaStall = 12 * pi / 180
   \<and> (\<bar>a\<bar> < alphaStall \<longrightarrow> CL a = clamp (2 * pi * a) (- (12 / 10)) (12 / 10))
   \<and> (\<bar>a\<bar> < alphaStall \<and> \<bar>2 * pi * a\<bar> \<le> 12 / 10 \<longrightarrow> CL a = 2 * pi * a)
   \<and> (6 / (10 * pi) \<le> a \<and> a < alphaStall \<longrightarrow> CL a = 12 / 10)
   \<and> (alphaStall \<le> \<bar>a\<bar> \<longrightarrow>
        CL a = (3 / 10) * (2 * pi * alphaStall * sgn a) * exp (- (\<bar>a\<bar> - alphaStall) * 8)
        \<and> \<bar>CL a\<bar> \<le> (3 / 10) * (2 * pi * alphaStall)
        \<and> \<bar>CL a\<bar> < 64 / 100)
   \<and> - (12 / 10) \<le> CL a \<and> CL a \<le> 12 / 10"
proof (intro conjI impI)
  show "alphaStall = 12 * pi / 180" by (simp add: alphaStall_def degToRad_def)
next
  assume "\<bar>a\<bar> < alphaStall"
  then show "CL a = clamp (2 * pi * a) (- (12 / 10)) (12 / 10)" by (rule CL_linear)
next
  assume "\<bar>a\<bar> < alphaStall \<and> \<bar>2 * pi * a\<bar> \<le> 12 / 10"
  then show "CL a = 2 * pi * a" by (auto simp: CL_linear clamp_def abs_le_iff)
next
  assume h: "6 / (10 * pi) \<le> a \<and> a < alphaStall"
  then have h1: "6 / (10 * pi) \<le> a" and h2: "a < alphaStall" by simp_all
  have "6 / (10 * pi) * (10 * pi) \<le> a * (10 * pi)"
    using h1 by (intro mult_right_mono) auto
  then have "6 \<le> a * (10 * pi)" by simp
  then have "12 / 10 \<le> 2 * pi * a" by (simp add: algebra_simps)
  then show "CL a = 12 / 10" using h2 by (rule CL_below_stall_clamped)
next
  assume h: "alphaStall \<le> \<bar>a\<bar>"
  show "CL a = (3 / 10) * (2 * pi * alphaStall * sgn a) * exp (- (\<bar>a\<bar> - alphaStall) * 8)"
    using CL_post_stall_exact(1)[OF h] by simp
  show le: "\<bar>CL a\<bar> \<le> (3 / 10) * (2 * pi * alphaStall)"
    using CL_post_stall_exact(2)[OF h] by simp
  have "pi * pi < 4 * 4" using pi_less_4 pi_gt_zero by (intro mult_strict_mono) auto
  then have "(3 / 10) * (2 * pi * alphaStall) < 64 / 100" by (simp add: alphaStall_eq)
  with le show "\<bar>CL a\<bar> < 64 / 100" by linarith
next
  show "- (12 / 10) \<le> CL a" "CL a \<le> 12 / 10" using CL_range[of a] by simp_all
qed

theorem C6_lift_coefficient_witness:
  "CL (1 / 10) = 2 * pi * (1 / 10) \<and> CL (1 / 5) = 12 / 10
   \<and> CL (pi / 15) = (3 / 10) * (2 * pi * (pi / 15)) \<and> CL (- (pi / 12)) < 0"
proof -
  have p: "3 < pi" "pi < 4" using pi_ge_312 pi_less_4 by simp_all
  have a1: "\<bar>1 / 10 :: real\<bar> < alphaStall \<and> \<bar>2 * pi * (1 / 10)\<bar> \<le> 12 / 10"
    using p by (simp add: alphaStall_eq)
  have a2: "6 / (10 * pi) \<le> 1 / 5 \<and> (1 / 5 :: real) < alphaStall"
    using p by (simp add: alphaStall_eq field_simps)
  have a3: "alphaStall \<le> \<bar>pi / 15\<bar>" by (simp add: alphaStall_eq)
  have a4: "alphaStall \<le> \<bar>- (pi / 12)\<bar>" by (simp add: alphaStall_eq)
  have c4: "CL (- (pi / 12)) =
              (3 / 10) * (2 * pi * alphaStall * sgn (- (pi / 12)))
              * exp (- (\<bar>- (pi / 12)\<bar> - alphaStall) * 8)"
    using C6_lift_coefficient[of "- (pi / 12)"] a4 by blast
  have "CL (- (pi / 12)) < 0"
    unfolding c4 using alphaStall_pos by (simp add: mult_less_0_iff)
  moreover have "CL (pi / 15) = (3 / 10) * (2 * pi * (pi / 15))"
    using C6_lift_coefficient[of "pi / 15"] a3 by (simp add: alphaStall_eq)
  ultimately show ?thesis
    using C6_lift_coefficient[of "1 / 10"] C6_lift_coefficient[of "1 / 5"] a1 a2
    by simp
qed

theorem C6_stall_boundary_counterexample:
  "CL (alphaStall - 1 / 1000) = 12 / 10
   \<and> 12 / 10 \<le> 2 * pi * alphaStall
   \<and> CL alphaStall = (3 / 10) * (2 * pi * alphaStall)
   \<and> CL alphaStall < 64 / 100
   \<and> CL (alphaStall + 1 / 1000) < 64 / 100"
proof -
  have p: "312 / 100 \<le> pi" "pi < 4" using pi_ge_312 pi_less_4 by simp_all
  have pp: "312 / 100 * (312 / 100) \<le> pi * pi" using p by (intro mult_mono) auto
  have peak: "12 / 10 \<le> 2 * pi * alphaStall" using pp by (simp add: alphaStall_eq)
  have "12 / 10 \<le> 2 * pi * (alphaStall - 1 / 1000)"
    using pp p by (simp add: alphaStall_eq algebra_simps)
  then have below: "CL (alphaStall - 1 / 1000) = 12 / 10"
    by (rule CL_below_stall_clamped) simp
  have "pi * pi < 4 * 4" using pi_less_4 pi_gt_zero by (intro mult_strict_mono) auto
  then have small: "(3 / 10) * (2 * pi * alphaStall) < 64 / 100" by (simp add: alphaStall_eq)
  have at: "CL alphaStall = (3 / 10) * (2 * pi * alphaStall)"
    using CL_post_stall_exact(1)[of alphaStall] alphaStall_pos by simp
  have "\<bar>CL (alphaStall + 1 / 1000)\<bar> \<le> 2 * pi * alphaStall * (3 / 10)"
    using alphaStall_pos by (intro CL_post_stall_exact(2)) simp
  then have above: "CL (alphaStall + 1 / 1000) < 64 / 100" using small by linarith
  show ?thesis using below peak at small above by simp
qed

subsection \<open>The low-speed factor of the lift\<close>

lemma stallFactor_eq:
  "stallFactor v = (if v < 15 then ((v - 5) / 10) ^ 2 else 1)"
  by (simp add: stallFactor_def stallSpeed_def minSpeed_def)

text \<open>
  C7. The code at a speed below the minimum speed: at 1 m/s the low-speed factor is
  \<open>((1 - 5) / 10)\<^sup>2 = 0.16\<close>, not 0, and with an angle of attack of 0.1 rad the
  lift magnitude is positive. The factor is 0 at the minimum speed 5 itself and 1
  from the stall speed 15 on; in between and below 5 it is \<open>((v - 5) / 10)\<^sup>2\<close>,
  which the \<open>max\<close> with 0 never changes.
\<close>

theorem C7_stall_factor_below_min_speed:
  "stallFactor 1 = 16 / 100
   \<and> stallFactor 0 = 25 / 100
   \<and> stallFactor 5 = 0
   \<and> stallFactor 15 = 1
   \<and> liftMagnitude 1 (1 / 10) = (1 / 2) * (1225 / 1000) * 1 * 1 * 2 * (2 * pi * (1 / 10)) * (16 / 100)
   \<and> 0 < liftMagnitude 1 (1 / 10)"
proof -
  have p: "3 \<le> pi" "pi < 4" using pi_ge_3 pi_less_4 by simp_all
  have "\<bar>1 / 10 :: real\<bar> < alphaStall" using p by (simp add: alphaStall_eq)
  then have "CL (1 / 10) = clamp (2 * pi * (1 / 10)) (- (12 / 10)) (12 / 10)"
    by (rule CL_linear)
  also have "\<dots> = 2 * pi * (1 / 10)" using p by (simp add: clamp_def)
  finally have cl: "CL (1 / 10) = 2 * pi * (1 / 10)" .
  have sf: "stallFactor 1 = 16 / 100" "stallFactor 0 = 25 / 100" "stallFactor 5 = 0"
    "stallFactor 15 = 1"
    by (simp_all add: stallFactor_eq power2_eq_square)
  have lm: "liftMagnitude 1 (1 / 10)
              = (1 / 2) * (1225 / 1000) * 1 * 1 * 2 * (2 * pi * (1 / 10)) * (16 / 100)"
    by (simp add: liftMagnitude_def q_def rho_def S_def cl sf)
  have "0 < liftMagnitude 1 (1 / 10)" unfolding lm by simp
  with sf lm show ?thesis by simp
qed

subsection \<open>Entering the ramp\<close>

lemma dy_zero: "dy r 0 = - 1"
  by (simp add: dy_def)

lemma denom_pos: "0 < sqrt (1 + s * s)" for s :: real
proof -
  have "0 \<le> s * s" by simp
  then have "0 < 1 + s * s" by linarith
  then show ?thesis by simp
qed

lemma unit_tangent_aux:
  "d \<noteq> 0 \<Longrightarrow> (1 / d) * (1 / d) + (s / d) * (s / d) = (1 + s * s) / (d * d)"
  for s d :: real
  by (simp add: add_divide_distrib)

lemma unit_tangent:
  "(1 / sqrt (1 + s * s)) * (1 / sqrt (1 + s * s))
     + (s / sqrt (1 + s * s)) * (s / sqrt (1 + s * s)) = 1" for s :: real
proof -
  let ?d = "sqrt (1 + s * s)"
  have p: "0 < 1 + s * s" using denom_pos[of s] by simp
  have d0: "?d \<noteq> 0" using denom_pos[of s] by simp
  have dd: "?d * ?d = 1 + s * s" using p by simp
  show ?thesis unfolding unit_tangent_aux[OF d0] dd using p by simp
qed

lemma enterRampMode_unfold:
  "enterRampMode r b rad =
     (let x0 = max 0 (min (vx (translation b) - vx (rampOrigin r)) (L r));
          s = dy r x0;
          d = sqrt (1 + s * s);
          v0 = vx (linvel b) * (1 / d) + vy (linvel b) * (s / d);
          l0 = vz (translation b) - vz (rampOrigin r);
          pr = (if rad = 0 then 1 else rad);
          px = vx (rampOrigin r) + x0 + (- s / d) * pr
      in (r\<lparr>rampState := \<lparr> rampX = x0, vS = v0, lateralZ = l0, vZ = vz (linvel b) \<rparr>,
            playerRadius := pr,
            playerPreviousX := Some px,
            playerRampMode := True,
            playerBallisticMode := False\<rparr>,
          b\<lparr>translation := Vector3 px (vy (rampOrigin r) + y r x0 + (1 / d) * pr)
                                      (vz (rampOrigin r) + l0),
            linvel := Vector3 (v0 * (1 / d)) (v0 * (s / d)) (vz (linvel b))\<rparr>))"
  by (simp add: enterRampMode_def getNormal_def Let_def setTranslation_def setLinvel_def)

text \<open>
  C3. For a ramp of positive length: on entry the progress is the body's world x
  minus the ramp origin's x, clamped to \<open>[0, L]\<close>; the arc-speed is the dot product
  of the body's velocity with the unit tangent \<open>(1, y'(x)) / sqrt (1 + y'(x)\<^sup>2)\<close>
  at that progress; the lateral position and the z-velocity are taken over as they
  are. The body is written at once: its position is the curve point moved by the
  player radius along the unit normal \<open>(-y'(x), 1) / sqrt (1 + y'(x)\<^sup>2)\<close>, with
  the z it had, and its velocity is the tangent times the arc-speed plus the
  z-velocity it had. The radius used is the player's (1 when the player's radius
  is 0). The written velocity has the same component along the tangent as the
  velocity before, and ramp mode is on.
\<close>

theorem C3_ramp_entry:
  assumes "enterRampMode r b rad = (r', b')" and "0 < L r"
  shows "(let x0 = max 0 (min (vx (translation b) - vx (rampOrigin r)) (L r));
              s = dy r x0;
              d = sqrt (1 + s * s);
              tx = 1 / d; ty = s / d;
              nx = - s / d; ny = 1 / d
          in rampX (rampState r') = x0
             \<and> 0 \<le> x0 \<and> x0 \<le> L r
             \<and> tx * tx + ty * ty = 1
             \<and> vS (rampState r') = vx (linvel b) * tx + vy (linvel b) * ty
             \<and> lateralZ (rampState r') = vz (translation b) - vz (rampOrigin r)
             \<and> vZ (rampState r') = vz (linvel b)
             \<and> playerRadius r' = (if rad = 0 then 1 else rad)
             \<and> translation b' =
                 Vector3 (vx (rampOrigin r) + x0 + nx * playerRadius r')
                         (vy (rampOrigin r) + y r x0 + ny * playerRadius r')
                         (vz (translation b))
             \<and> linvel b' =
                 Vector3 (vS (rampState r') * tx) (vS (rampState r') * ty) (vz (linvel b))
             \<and> vx (linvel b') * tx + vy (linvel b') * ty
                 = vx (linvel b) * tx + vy (linvel b) * ty
             \<and> playerRampMode r')"
proof -
  define x0 where "x0 = max 0 (min (vx (translation b) - vx (rampOrigin r)) (L r))"
  define s where "s = dy r x0"
  define d where "d = sqrt (1 + s * s)"
  define v0 where "v0 = vx (linvel b) * (1 / d) + vy (linvel b) * (s / d)"
  have ut: "(1 / d) * (1 / d) + (s / d) * (s / d) = 1"
    unfolding d_def by (rule unit_tangent)
  have en: "v0 * (1 / d) * (1 / d) + v0 * (s / d) * (s / d) = v0"
  proof -
    have "v0 * (1 / d) * (1 / d) + v0 * (s / d) * (s / d)
            = v0 * ((1 / d) * (1 / d) + (s / d) * (s / d))"
      by (simp add: distrib_left mult.assoc)
    then show ?thesis using ut by simp
  qed
  have r': "r' = r\<lparr>rampState := \<lparr> rampX = x0, vS = v0,
                                   lateralZ = vz (translation b) - vz (rampOrigin r),
                                   vZ = vz (linvel b) \<rparr>,
            playerRadius := (if rad = 0 then 1 else rad),
            playerPreviousX := Some (vx (rampOrigin r) + x0
                                      + (- s / d) * (if rad = 0 then 1 else rad)),
            playerRampMode := True,
            playerBallisticMode := False\<rparr>"
    and b': "b' = b\<lparr>translation :=
                     Vector3 (vx (rampOrigin r) + x0 + (- s / d) * (if rad = 0 then 1 else rad))
                             (vy (rampOrigin r) + y r x0 + (1 / d) * (if rad = 0 then 1 else rad))
                             (vz (rampOrigin r) + (vz (translation b) - vz (rampOrigin r))),
                   linvel := Vector3 (v0 * (1 / d)) (v0 * (s / d)) (vz (linvel b))\<rparr>"
    using assms(1) unfolding enterRampMode_unfold Let_def x0_def s_def d_def v0_def
    by simp_all
  have range: "0 \<le> x0 \<and> x0 \<le> L r" using assms(2) by (simp add: x0_def)
  show ?thesis
    unfolding Let_def x0_def[symmetric] s_def[symmetric] d_def[symmetric]
    using range ut en by (simp add: r' b' v0_def)
qed


theorem C3_ramp_entry_witness:
  "rampState (fst (enterRampMode RampL
       ((bodyAt (- 210))\<lparr>translation := Vector3 (2294 / 10) (- 210) 3,
                          linvel := Vector3 1 (- 1) 2\<rparr>) 1))
     = \<lparr> rampX = 0, vS = 1 * (1 / sqrt 2) + (- 1) * (- 1 / sqrt 2), lateralZ = 3, vZ = 2 \<rparr>
   \<and> translation (snd (enterRampMode RampL
       ((bodyAt (- 210))\<lparr>translation := Vector3 (2294 / 10) (- 210) 3,
                          linvel := Vector3 1 (- 1) 2\<rparr>) 1))
     = Vector3 (2294 / 10 + 0 + 1 / sqrt 2) (- (21465 / 100) + 0 + 1 / sqrt 2) 3"
proof -
  let ?b = "(bodyAt (- 210))\<lparr>translation := Vector3 (2294 / 10) (- 210) 3,
                              linvel := Vector3 1 (- 1) 2\<rparr>"
  have x0: "max 0 (min (vx (translation ?b) - vx (rampOrigin RampL)) (L RampL)) = 0"
    by (simp add: RampL_def)
  have s: "dy RampL 0 = - 1" by (rule dy_zero)
  have y0: "y RampL 0 = 0" by (simp add: y_def)
  have o: "rampOrigin RampL = Vector3 (2294 / 10) (- (21465 / 100)) 0"
    by (simp add: RampL_def)
  have l: "0 < L RampL" by (simp add: RampL_def)
  have "enterRampMode RampL ?b 1
          = (fst (enterRampMode RampL ?b 1), snd (enterRampMode RampL ?b 1))"
    by simp
  from C3_ramp_entry[OF this l]
  show ?thesis
    by (cases "rampState (fst (enterRampMode RampL ?b 1))") (simp add: Let_def x0 s y0 o)
qed

subsection \<open>The substeps on the ramp\<close>

lemma substep_unfold:
  assumes "0 < L r"
  shows "substep r h z (x, v, l) =
     (let s = dy r x;
          d = sqrt (1 + s * s);
          aT = - gravity r * s / d;
          v1 = v + aT * h;
          x1 = x + v1 * h / d
      in ((max 0 (min x1 (L r)), (if x1 < 0 then \<bar>v1\<bar> else v1), l + z * h), L r \<le> x1))"
  using assms by (auto simp: substep_def Let_def)

lemma substep_exit: "snd (substep r h z st) \<Longrightarrow> fst (fst (substep r h z st)) = L r"
  by (cases st) (auto simp: substep_def Let_def split: if_splits)

lemma substepLoop_exit:
  "snd (substepLoop r h z n st) \<Longrightarrow> fst (fst (substepLoop r h z n st)) = L r"
proof (induction n arbitrary: st)
  case 0
  then show ?case by simp
next
  case (Suc n)
  obtain st' ex where s: "substep r h z st = (st', ex)" by (cases "substep r h z st")
  show ?case
  proof (cases ex)
    case True
    then show ?thesis using s substep_exit[of r h z st] by simp
  next
    case False
    then show ?thesis using s Suc by simp
  qed
qed

lemma substepLoop_no_exit:
  "\<not> snd (substepLoop r h z n st) \<Longrightarrow>
   fst (substepLoop r h z n st) = ((\<lambda>s. fst (substep r h z s)) ^^ n) st"
proof (induction n arbitrary: st)
  case 0
  then show ?case by simp
next
  case (Suc n)
  obtain st' ex where s: "substep r h z st = (st', ex)" by (cases "substep r h z st")
  show ?case
  proof (cases ex)
    case True
    then show ?thesis using s Suc.prems by simp
  next
    case False
    then have "fst (substepLoop r h z (Suc n) st) = ((\<lambda>s. fst (substep r h z s)) ^^ n) st'"
      using s Suc by simp
    also have "\<dots> = ((\<lambda>s. fst (substep r h z s)) ^^ Suc n) st"
      using s by (simp add: funpow_Suc_right del: funpow.simps)
    finally show ?thesis .
  qed
qed

lemma substep_range:
  assumes "0 < L r"
  shows "0 \<le> fst (fst (substep r h z st)) \<and> fst (fst (substep r h z st)) \<le> L r"
  using assms by (cases st) (auto simp: substep_def Let_def)

lemma substepLoop_range:
  assumes "0 < L r" and "0 \<le> fst st" and "fst st \<le> L r"
  shows "0 \<le> fst (fst (substepLoop r h z n st)) \<and> fst (fst (substepLoop r h z n st)) \<le> L r"
  using assms(2,3)
proof (induction n arbitrary: st)
  case 0
  then show ?case by simp
next
  case (Suc n)
  obtain st' ex where s: "substep r h z st = (st', ex)" by (cases "substep r h z st")
  have rg: "0 \<le> fst st' \<and> fst st' \<le> L r"
    using substep_range[OF assms(1), of h z st] s by simp
  show ?case
  proof (cases ex)
    case True
    then show ?thesis using s rg by simp
  next
    case False
    then show ?thesis using s rg Suc.IH[of st'] by simp
  qed
qed

lemma stepRampConstraint_loop:
  "newState (stepRampConstraint r st dt) =
     (case fst (substepLoop r (dt / real (substeps r)) (vZ st) (substeps r)
                  (rampX st, vS st, lateralZ st)) of
        (x, v, l) \<Rightarrow> st\<lparr>rampX := x, vS := v, lateralZ := l\<rparr>)
   \<and> exitedRamp (stepRampConstraint r st dt) =
       snd (substepLoop r (dt / real (substeps r)) (vZ st) (substeps r)
              (rampX st, vS st, lateralZ st))"
  by (simp add: stepRampConstraint_def Let_def split_beta)

lemma stepRampConstraint_writes:
  "newPosition (stepRampConstraint r st dt) =
     (let x = rampX (newState (stepRampConstraint r st dt));
          s = dy r x; d = sqrt (1 + s * s)
      in Vector3 (vx (rampOrigin r) + x + (- s / d) * playerRadius r)
                 (vy (rampOrigin r) + y r x + (1 / d) * playerRadius r)
                 (vz (rampOrigin r) + lateralZ (newState (stepRampConstraint r st dt))))
   \<and> newVelocity (stepRampConstraint r st dt) =
     (let x = rampX (newState (stepRampConstraint r st dt));
          s = dy r x; d = sqrt (1 + s * s)
      in Vector3 (vS (newState (stepRampConstraint r st dt)) * (1 / d))
                 (vS (newState (stepRampConstraint r st dt)) * (s / d))
                 (vZ st))"
  by (simp add: stepRampConstraint_def getNormal_def Let_def split_beta)

lemma RampL_update_ramp_mode:
  assumes "body (vars p) = Some b" and "playerRampMode r"
  shows "RampL_update r (Some p) e =
     (let result = stepRampConstraint r (rampState r) (delta e / 1000);
          r1 = r\<lparr>rampState := newState result\<rparr>;
          p1 = p\<lparr>vars := (vars p)\<lparr>body :=
                 Some (b\<lparr>translation := newPosition result, linvel := newVelocity result\<rparr>)\<rparr>\<rparr>
      in if exitedRamp result
         then (r1\<lparr>playerRampMode := False, playerBallisticMode := True\<rparr>, Some p1,
               [ExitedRampMode])
         else (r1, Some p1, []))"
  using assms
  by (simp add: RampL_update_def Let_def setTranslation_def setLinvel_def exitRampMode_def)

lemma substep_from_rest:
  assumes "0 < h" and "0 < gravity r" and "gravity r * h * h / 2 < L r"
  shows "substep r h z (0, 0, l) =
           ((gravity r * h * h / 2, gravity r * h / sqrt 2, l + z * h), False)"
proof -
  have L0: "0 < L r"
  proof -
    have "0 < gravity r * h * h / 2" using assms(1,2) by simp
    with assms(3) show ?thesis by linarith
  qed
  have x1: "gravity r * h / sqrt 2 * h / sqrt 2 = gravity r * h * h / 2"
  proof -
    have "gravity r * h / sqrt 2 * h / sqrt 2 = gravity r * h * h / (sqrt 2 * sqrt 2)"
      by simp
    then show ?thesis by simp
  qed
  have pos: "0 < gravity r * h * h / 2" using assms(1,2) by simp
  show ?thesis
    unfolding substep_unfold[OF L0] Let_def dy_zero
    using pos assms(3) by (simp add: x1)
qed


lemma substepLoop_runs:
  "(\<forall>k<n. \<not> snd (substep r h z (((\<lambda>s. fst (substep r h z s)) ^^ k) st))) \<Longrightarrow>
   substepLoop r h z n st = (((\<lambda>s. fst (substep r h z s)) ^^ n) st, False)"
proof (induction n arbitrary: st)
  case 0
  then show ?case by simp
next
  case (Suc n)
  let ?f = "\<lambda>s. fst (substep r h z s)"
  have e0: "\<not> snd (substep r h z st)" using Suc.prems by (auto dest: spec[of _ 0])
  have rest: "\<forall>k<n. \<not> snd (substep r h z ((?f ^^ k) (?f st)))"
  proof (intro allI impI)
    fix k assume "k < n"
    then have "\<not> snd (substep r h z ((?f ^^ Suc k) st))" using Suc.prems by blast
    then show "\<not> snd (substep r h z ((?f ^^ k) (?f st)))"
      by (simp add: funpow_Suc_right del: funpow.simps)
  qed
  have "substepLoop r h z (Suc n) st = substepLoop r h z n (?f st)"
    using e0 by (cases "substep r h z st") simp
  also have "\<dots> = ((?f ^^ n) (?f st), False)" using Suc.IH[OF rest] .
  also have "(?f ^^ n) (?f st) = (?f ^^ Suc n) st"
    by (simp add: funpow_Suc_right del: funpow.simps)
  finally show ?case .
qed

lemma substepLoop_leaves:
  "k < n \<Longrightarrow>
   (\<forall>j<k. \<not> snd (substep r h z (((\<lambda>s. fst (substep r h z s)) ^^ j) st))) \<Longrightarrow>
   snd (substep r h z (((\<lambda>s. fst (substep r h z s)) ^^ k) st)) \<Longrightarrow>
   substepLoop r h z n st = (((\<lambda>s. fst (substep r h z s)) ^^ Suc k) st, True)"
proof (induction n arbitrary: st k)
  case 0
  then show ?case by simp
next
  case (Suc n)
  let ?f = "\<lambda>s. fst (substep r h z s)"
  show ?case
  proof (cases k)
    case 0
    then have "snd (substep r h z st)" using Suc.prems(3) by simp
    then show ?thesis using 0 by (cases "substep r h z st") simp
  next
    case (Suc k')
    have e0: "\<not> snd (substep r h z st)"
      using Suc.prems(2) Suc by (auto dest: spec[of _ 0])
    have lt: "k' < n" using Suc.prems(1) Suc by simp
    have rest: "\<forall>j<k'. \<not> snd (substep r h z ((?f ^^ j) (?f st)))"
    proof (intro allI impI)
      fix j assume "j < k'"
      then have "Suc j < k" using Suc by simp
      then have "\<not> snd (substep r h z ((?f ^^ Suc j) st))" using Suc.prems(2) by blast
      then show "\<not> snd (substep r h z ((?f ^^ j) (?f st)))"
        by (simp add: funpow_Suc_right del: funpow.simps)
    qed
    have ex: "snd (substep r h z ((?f ^^ k') (?f st)))"
      using Suc.prems(3) Suc by (simp add: funpow_Suc_right del: funpow.simps)
    have "substepLoop r h z (Suc n) st = substepLoop r h z n (?f st)"
      using e0 by (cases "substep r h z st") simp
    also have "\<dots> = ((?f ^^ Suc k') (?f st), True)"
      using Suc.IH[OF lt rest ex] .
    also have "(?f ^^ Suc k') (?f st) = (?f ^^ Suc k) st"
      unfolding Suc by (simp add: funpow_Suc_right del: funpow.simps)
    finally show ?thesis .
  qed
qed

lemma substepLoop_exit_iff:
  "snd (substepLoop r h z n st) \<longleftrightarrow>
   (\<exists>k<n. snd (substep r h z (((\<lambda>s. fst (substep r h z s)) ^^ k) st)))"
proof
  assume a: "snd (substepLoop r h z n st)"
  show "\<exists>k<n. snd (substep r h z (((\<lambda>s. fst (substep r h z s)) ^^ k) st))"
  proof (rule ccontr)
    assume "\<not> ?thesis"
    then have "\<forall>k<n. \<not> snd (substep r h z (((\<lambda>s. fst (substep r h z s)) ^^ k) st))"
      by blast
    from substepLoop_runs[OF this] a show False by simp
  qed
next
  let ?P = "\<lambda>k. k < n \<and> snd (substep r h z (((\<lambda>s. fst (substep r h z s)) ^^ k) st))"
  assume "\<exists>k<n. snd (substep r h z (((\<lambda>s. fst (substep r h z s)) ^^ k) st))"
  then obtain k0 where "?P k0" by blast
  define k where "k = (LEAST k. ?P k)"
  have pk: "?P k" unfolding k_def using \<open>?P k0\<close> by (rule LeastI)
  have least: "\<forall>j<k. \<not> snd (substep r h z (((\<lambda>s. fst (substep r h z s)) ^^ j) st))"
  proof (intro allI impI)
    fix j assume j: "j < k"
    then have "\<not> ?P j" unfolding k_def by (rule not_less_Least)
    moreover have "j < n" using j pk by simp
    ultimately show "\<not> snd (substep r h z (((\<lambda>s. fst (substep r h z s)) ^^ j) st))" by simp
  qed
  from substepLoop_leaves[of k n r h z st] pk least
  show "snd (substepLoop r h z n st)" by simp
qed

text \<open>
  C1. While ramp mode is active a tick runs \<open>stepRampConstraint\<close>, whose loop makes
  \<open>substeps\<close> passes (4 by default) with the time step \<open>dt / substeps\<close>, unless a pass
  leaves it. One pass, with \<open>s = y'(x)\<close> and \<open>d = sqrt (1 + s\<^sup>2)\<close>: the tangential
  acceleration is \<open>aT = -g s / d\<close>; the arc-speed grows by \<open>aT dt\<close>; the lateral
  position grows by the lateral velocity times \<open>dt\<close>; the progress grows by
  \<open>vS dt / d\<close> and is clamped to \<open>[0, L]\<close>; when it fell below 0 the arc-speed is
  replaced by its absolute value; when it reached \<open>L\<close> the pass ends the loop with
  progress \<open>L\<close>, and the tick ends ramp mode. For the configured ramp (\<open>L = 30\<close>,
  \<open>M = 1.3\<close>) \<open>y'(0) = -1\<close>, so \<open>aT(0) = g / sqrt 2 > 0\<close>, and a body at rest at
  progress 0 has a positive arc-speed and a positive progress after one pass.

  The loop leaves exactly when one of its first \<open>n\<close> passes reaches \<open>L\<close>; it then
  returns the state after the first such pass; otherwise it returns the state after
  \<open>n\<close> passes. The tick stores the new progress, arc-speed and lateral position in
  the ramp state and writes the body: the position is the curve point at the new
  progress moved by the player radius along the unit normal, the velocity is the
  unit tangent times the new arc-speed plus the lateral velocity.
\<close>

theorem C1_ramp_substeps:
  assumes "0 < L r"
  shows "substep r h z (x, v, l) =
           (let s = dy r x;
                d = sqrt (1 + s * s);
                aT = - gravity r * s / d;
                v1 = v + aT * h;
                x1 = x + v1 * h / d
            in ((max 0 (min x1 (L r)), (if x1 < 0 then \<bar>v1\<bar> else v1), l + z * h),
                L r \<le> x1))
       \<and> newState (stepRampConstraint r st dt) =
           (case fst (substepLoop r (dt / real (substeps r)) (vZ st) (substeps r)
                        (rampX st, vS st, lateralZ st)) of
              (x', v', l') \<Rightarrow> st\<lparr>rampX := x', vS := v', lateralZ := l'\<rparr>)
       \<and> exitedRamp (stepRampConstraint r st dt) =
           snd (substepLoop r (dt / real (substeps r)) (vZ st) (substeps r)
                  (rampX st, vS st, lateralZ st))
       \<and> substeps RampL = 4
       \<and> (snd (substepLoop r h z n s0) \<longrightarrow> fst (fst (substepLoop r h z n s0)) = L r)
       \<and> (\<not> snd (substepLoop r h z n s0) \<longrightarrow>
            fst (substepLoop r h z n s0) = ((\<lambda>s. fst (substep r h z s)) ^^ n) s0)
       \<and> (playerRampMode r \<and> body (vars p) = Some b \<longrightarrow>
            playerRampMode (fst (RampL_update r (Some p) e))
              = (\<not> exitedRamp (stepRampConstraint r (rampState r) (delta e / 1000))))
       \<and> L RampL = 30 \<and> M RampL = 13 / 10 \<and> dy RampL 0 = - 1
       \<and> dy r 0 = - 1
       \<and> (- gravity r * dy r 0) / sqrt (1 + dy r 0 * dy r 0) = gravity r / sqrt 2
       \<and> (0 < gravity r \<longrightarrow> 0 < gravity r / sqrt 2)
       \<and> (0 < h \<and> 0 < gravity r \<and> gravity r * h * h / 2 < L r \<longrightarrow>
            substep r h z (0, 0, l) =
              ((gravity r * h * h / 2, gravity r * h / sqrt 2, l + z * h), False))
       \<and> (snd (substepLoop r h z n s0) \<longleftrightarrow>
            (\<exists>i<n. snd (substep r h z (((\<lambda>s. fst (substep r h z s)) ^^ i) s0))))
       \<and> (k < n
            \<and> (\<forall>j<k. \<not> snd (substep r h z (((\<lambda>s. fst (substep r h z s)) ^^ j) s0)))
            \<and> snd (substep r h z (((\<lambda>s. fst (substep r h z s)) ^^ k) s0)) \<longrightarrow>
            substepLoop r h z n s0 = (((\<lambda>s. fst (substep r h z s)) ^^ Suc k) s0, True))
       \<and> ((\<forall>i<n. \<not> snd (substep r h z (((\<lambda>s. fst (substep r h z s)) ^^ i) s0))) \<longrightarrow>
            substepLoop r h z n s0 = (((\<lambda>s. fst (substep r h z s)) ^^ n) s0, False))
       \<and> newPosition (stepRampConstraint r st dt) =
           (let x' = rampX (newState (stepRampConstraint r st dt));
                s = dy r x'; d = sqrt (1 + s * s)
            in Vector3 (vx (rampOrigin r) + x' + (- s / d) * playerRadius r)
                       (vy (rampOrigin r) + y r x' + (1 / d) * playerRadius r)
                       (vz (rampOrigin r) + lateralZ (newState (stepRampConstraint r st dt))))
       \<and> newVelocity (stepRampConstraint r st dt) =
           (let x' = rampX (newState (stepRampConstraint r st dt));
                s = dy r x'; d = sqrt (1 + s * s)
            in Vector3 (vS (newState (stepRampConstraint r st dt)) * (1 / d))
                       (vS (newState (stepRampConstraint r st dt)) * (s / d))
                       (vZ st))
       \<and> (playerRampMode r \<and> body (vars p) = Some b \<longrightarrow>
            RampL_update r (Some p) e =
              (let result = stepRampConstraint r (rampState r) (delta e / 1000);
                   r1 = r\<lparr>rampState := newState result\<rparr>;
                   p1 = p\<lparr>vars := (vars p)\<lparr>body :=
                          Some (b\<lparr>translation := newPosition result,
                                  linvel := newVelocity result\<rparr>)\<rparr>\<rparr>
               in if exitedRamp result
                  then (r1\<lparr>playerRampMode := False, playerBallisticMode := True\<rparr>, Some p1,
                        [ExitedRampMode])
                  else (r1, Some p1, [])))
       \<and> dy r x = 3 * ((M r - 1) / (L r * L r)) * x * x + 2 * ((2 - M r) / L r) * x - 1
       \<and> y r x = ((M r - 1) / (L r * L r)) * x * x * x + ((2 - M r) / L r) * x * x - x"
proof -
  have one: "substep r h z (x, v, l) =
           (let s = dy r x;
                d = sqrt (1 + s * s);
                aT = - gravity r * s / d;
                v1 = v + aT * h;
                x1 = x + v1 * h / d
            in ((max 0 (min x1 (L r)), (if x1 < 0 then \<bar>v1\<bar> else v1), l + z * h),
                L r \<le> x1))"
    using assms by (rule substep_unfold)
  have tick: "playerRampMode (fst (RampL_update r (Some p) e))
              = (\<not> exitedRamp (stepRampConstraint r (rampState r) (delta e / 1000)))"
    if "playerRampMode r \<and> body (vars p) = Some b"
    using that RampL_update_ramp_mode[of p b r e] by (simp add: Let_def)
  have cfg: "substeps RampL = 4" "L RampL = 30" "M RampL = 13 / 10"
    by (simp_all add: RampL_def)
  have rest: "substep r h z (0, 0, l) =
              ((gravity r * h * h / 2, gravity r * h / sqrt 2, l + z * h), False)"
    if "0 < h \<and> 0 < gravity r \<and> gravity r * h * h / 2 < L r"
    using that substep_from_rest[of h r z l] by simp
  have old: "substep r h z (x, v, l) =
           (let s = dy r x;
                d = sqrt (1 + s * s);
                aT = - gravity r * s / d;
                v1 = v + aT * h;
                x1 = x + v1 * h / d
            in ((max 0 (min x1 (L r)), (if x1 < 0 then \<bar>v1\<bar> else v1), l + z * h),
                L r \<le> x1))
       \<and> newState (stepRampConstraint r st dt) =
           (case fst (substepLoop r (dt / real (substeps r)) (vZ st) (substeps r)
                        (rampX st, vS st, lateralZ st)) of
              (x', v', l') \<Rightarrow> st\<lparr>rampX := x', vS := v', lateralZ := l'\<rparr>)
       \<and> exitedRamp (stepRampConstraint r st dt) =
           snd (substepLoop r (dt / real (substeps r)) (vZ st) (substeps r)
                  (rampX st, vS st, lateralZ st))
       \<and> substeps RampL = 4
       \<and> (snd (substepLoop r h z n s0) \<longrightarrow> fst (fst (substepLoop r h z n s0)) = L r)
       \<and> (\<not> snd (substepLoop r h z n s0) \<longrightarrow>
            fst (substepLoop r h z n s0) = ((\<lambda>s. fst (substep r h z s)) ^^ n) s0)
       \<and> (playerRampMode r \<and> body (vars p) = Some b \<longrightarrow>
            playerRampMode (fst (RampL_update r (Some p) e))
              = (\<not> exitedRamp (stepRampConstraint r (rampState r) (delta e / 1000))))
       \<and> L RampL = 30 \<and> M RampL = 13 / 10 \<and> dy RampL 0 = - 1
       \<and> dy r 0 = - 1
       \<and> (- gravity r * dy r 0) / sqrt (1 + dy r 0 * dy r 0) = gravity r / sqrt 2
       \<and> (0 < gravity r \<longrightarrow> 0 < gravity r / sqrt 2)
       \<and> (0 < h \<and> 0 < gravity r \<and> gravity r * h * h / 2 < L r \<longrightarrow>
            substep r h z (0, 0, l) =
              ((gravity r * h * h / 2, gravity r * h / sqrt 2, l + z * h), False))"
    using one stepRampConstraint_loop[of r st dt] cfg
      substepLoop_exit[of r h z n s0] substepLoop_no_exit[of r h z n s0] tick rest
    by (simp add: dy_zero)
  have b1: "snd (substepLoop r h z n s0) \<longleftrightarrow>
            (\<exists>i<n. snd (substep r h z (((\<lambda>s. fst (substep r h z s)) ^^ i) s0)))"
    by (rule substepLoop_exit_iff)
  have b2: "k < n
            \<and> (\<forall>j<k. \<not> snd (substep r h z (((\<lambda>s. fst (substep r h z s)) ^^ j) s0)))
            \<and> snd (substep r h z (((\<lambda>s. fst (substep r h z s)) ^^ k) s0)) \<longrightarrow>
            substepLoop r h z n s0 = (((\<lambda>s. fst (substep r h z s)) ^^ Suc k) s0, True)"
    using substepLoop_leaves[of k n r h z s0] by blast
  have b3: "(\<forall>i<n. \<not> snd (substep r h z (((\<lambda>s. fst (substep r h z s)) ^^ i) s0))) \<longrightarrow>
            substepLoop r h z n s0 = (((\<lambda>s. fst (substep r h z s)) ^^ n) s0, False)"
    using substepLoop_runs[of n r h z s0] by blast
  have b4: "newPosition (stepRampConstraint r st dt) =
           (let x' = rampX (newState (stepRampConstraint r st dt));
                s = dy r x'; d = sqrt (1 + s * s)
            in Vector3 (vx (rampOrigin r) + x' + (- s / d) * playerRadius r)
                       (vy (rampOrigin r) + y r x' + (1 / d) * playerRadius r)
                       (vz (rampOrigin r) + lateralZ (newState (stepRampConstraint r st dt))))"
    and b5: "newVelocity (stepRampConstraint r st dt) =
           (let x' = rampX (newState (stepRampConstraint r st dt));
                s = dy r x'; d = sqrt (1 + s * s)
            in Vector3 (vS (newState (stepRampConstraint r st dt)) * (1 / d))
                       (vS (newState (stepRampConstraint r st dt)) * (s / d))
                       (vZ st))"
    using stepRampConstraint_writes[of r st dt] by blast+
  have b6: "playerRampMode r \<and> body (vars p) = Some b \<longrightarrow>
            RampL_update r (Some p) e =
              (let result = stepRampConstraint r (rampState r) (delta e / 1000);
                   r1 = r\<lparr>rampState := newState result\<rparr>;
                   p1 = p\<lparr>vars := (vars p)\<lparr>body :=
                          Some (b\<lparr>translation := newPosition result,
                                  linvel := newVelocity result\<rparr>)\<rparr>\<rparr>
               in if exitedRamp result
                  then (r1\<lparr>playerRampMode := False, playerBallisticMode := True\<rparr>, Some p1,
                        [ExitedRampMode])
                  else (r1, Some p1, []))"
    using RampL_update_ramp_mode[of p b r e] by blast
  have b7: "dy r x = 3 * ((M r - 1) / (L r * L r)) * x * x + 2 * ((2 - M r) / L r) * x - 1"
    and b8: "y r x = ((M r - 1) / (L r * L r)) * x * x * x + ((2 - M r) / L r) * x * x - x"
    by (simp_all add: dy_def y_def Let_def)
  from old b1 b2 b3 b4 b5 b6 b7 b8 show ?thesis by (elim conjE) (intro conjI; assumption)
qed

theorem C1_ramp_substeps_witness:
  "substep RampL (4 / 1000) 0 (0, 0, 0) =
     ((981 / 100 * (4 / 1000) * (4 / 1000) / 2, 981 / 100 * (4 / 1000) / sqrt 2, 0), False)
   \<and> 0 < 981 / 100 * (4 / 1000) / sqrt 2
   \<and> substepLoop RampL (4 / 1000) 0 1 (0, 0, 0) =
       ((981 / 100 * (4 / 1000) * (4 / 1000) / 2, 981 / 100 * (4 / 1000) / sqrt 2, 0), False)
   \<and> substepLoop RampL 0 0 4 (30, 5, 0) = ((30, 5, 0), True)"
proof -
  have a: "0 < L RampL" by (simp add: RampL_def)
  have g: "gravity RampL = 981 / 100" by (simp add: RampL_def)
  have h: "(0::real) < 4 / 1000 \<and> 0 < gravity RampL
           \<and> gravity RampL * (4 / 1000) * (4 / 1000) / 2 < L RampL"
    by (simp add: RampL_def)
  note C = C1_ramp_substeps[OF a, where h = "4 / 1000" and z = 0 and x = 0 and v = 0
        and l = 0 and st = "rampState RampL" and dt = 0 and n = 1 and ?s0.0 = "(0, 0, 0)"
        and p = "engineStep Player (bodyAt 0)" and b = "bodyAt 0" and e = env0 and k = 0]
  from C h
  have s1: "substep RampL (4 / 1000) 0 (0, 0, 0) =
          ((gravity RampL * (4 / 1000) * (4 / 1000) / 2,
            gravity RampL * (4 / 1000) / sqrt 2, 0 + 0 * (4 / 1000)), False)"
    by blast
  have n1: "\<forall>i<(1::nat). \<not> snd (substep RampL (4 / 1000) 0
              (((\<lambda>s. fst (substep RampL (4 / 1000) 0 s)) ^^ i) (0, 0, 0)))"
    using s1 by simp
  from C n1
  have l1: "substepLoop RampL (4 / 1000) 0 1 (0, 0, 0)
              = (((\<lambda>s. fst (substep RampL (4 / 1000) 0 s)) ^^ 1) (0, 0, 0), False)"
    by blast
  note D = C1_ramp_substeps[OF a, where h = 0 and z = 0 and x = 30 and v = 5
        and l = 0 and st = "rampState RampL" and dt = 0 and n = 4 and ?s0.0 = "(30, 5, 0)"
        and p = "engineStep Player (bodyAt 0)" and b = "bodyAt 0" and e = env0 and k = 0]
  from D have s2: "substep RampL 0 0 (30, 5, 0) = ((30, 5, 0), True)"
    by (simp add: Let_def RampL_def)
  have n2: "(0::nat) < 4
            \<and> (\<forall>j<(0::nat). \<not> snd (substep RampL 0 0
                   (((\<lambda>s. fst (substep RampL 0 0 s)) ^^ j) (30, 5, 0))))
            \<and> snd (substep RampL 0 0 (((\<lambda>s. fst (substep RampL 0 0 s)) ^^ 0) (30, 5, 0)))"
    using s2 by simp
  from D n2
  have l2: "substepLoop RampL 0 0 4 (30, 5, 0)
              = (((\<lambda>s. fst (substep RampL 0 0 s)) ^^ Suc 0) (30, 5, 0), True)"
    by blast
  show ?thesis using s1 l1 l2 s2 by (simp add: g)
qed

subsection \<open>The gate\<close>

lemma player_body_same: "body (vars p) = Some b \<Longrightarrow> p\<lparr>vars := (vars p)\<lparr>body := Some b\<rparr>\<rparr> = p"
  by (cases p) auto

lemma RampL_update_no_body:
  "RampL_update r None e = (r, None, [])"
  "body (vars p) = None \<Longrightarrow> RampL_update r (Some p) e = (r, Some p, [])"
  by (simp_all add: RampL_update_def)

lemma RampL_update_first_tick:
  assumes "body (vars p) = Some b" and "\<not> playerRampMode r"
    and "playerPreviousPos r = None \<or> \<not> computedGateMesh r"
  shows "RampL_update r (Some p) e = (r\<lparr>playerPreviousPos := Some (translation b)\<rparr>, Some p, [])"
  using assms by (auto simp: RampL_update_def Let_def player_body_same)

lemma RampL_update_gate:
  assumes "body (vars p) = Some b" and "\<not> playerRampMode r" and "computedGateMesh r"
    and "playerPreviousPos r = Some pp"
  shows "RampL_update r (Some p) e =
     (let pos = translation b;
          sd = signedDistance r pos;
          prev = signedDistance r pp
      in if withinY r pos \<and> withinWidth r pos \<and> prev < 0 \<and> 0 \<le> sd
         then ((fst (enterRampMode r b (radius (vars p))))\<lparr>playerPreviousPos := Some pos\<rparr>,
               Some (p\<lparr>vars := (vars p)\<lparr>body :=
                       Some (snd (enterRampMode r b (radius (vars p))))\<rparr>\<rparr>),
               [GateCrossed Front, EnteredRampMode])
         else if withinY r pos \<and> withinWidth r pos \<and> 0 < prev \<and> sd \<le> 0
         then (r\<lparr>playerPreviousPos := Some pos\<rparr>, Some p, [GateCrossed Back])
         else (r\<lparr>playerPreviousPos := Some pos\<rparr>, Some p, []))"
  using assms
  by (auto simp: RampL_update_def Let_def player_body_same split_beta)

lemma enterRampMode_keeps:
  "gateCenter (fst (enterRampMode r b rad)) = gateCenter r"
  "gateNormal (fst (enterRampMode r b rad)) = gateNormal r"
  "gateWidth (fst (enterRampMode r b rad)) = gateWidth r"
  "gateHeight (fst (enterRampMode r b rad)) = gateHeight r"
  "computedGateMesh (fst (enterRampMode r b rad)) = computedGateMesh r"
  "playerPreviousPos (fst (enterRampMode r b rad)) = playerPreviousPos r"
  "playerRampMode (fst (enterRampMode r b rad))"
  by (simp_all add: enterRampMode_unfold Let_def)


lemma gate_cong:
  assumes "gateCenter r' = gateCenter r" and "gateNormal r' = gateNormal r"
    and "gateWidth r' = gateWidth r" and "gateHeight r' = gateHeight r"
  shows "signedDistance r' = signedDistance r" and "withinY r' = withinY r"
    and "withinWidth r' = withinWidth r"
  using assms
  by (simp_all add: fun_eq_iff signedDistance_def withinY_def withinWidth_def
        lateralDistance_def)

lemma gate_prev:
  "signedDistance (r\<lparr>playerPreviousPos := x\<rparr>) = signedDistance r"
  "withinY (r\<lparr>playerPreviousPos := x\<rparr>) = withinY r"
  "withinWidth (r\<lparr>playerPreviousPos := x\<rparr>) = withinWidth r"
  by (rule gate_cong; simp)+

lemma gate_enter:
  "signedDistance (fst (enterRampMode r b rad)) = signedDistance r"
  "withinY (fst (enterRampMode r b rad)) = withinY r"
  "withinWidth (fst (enterRampMode r b rad)) = withinWidth r"
  by (rule gate_cong; simp add: enterRampMode_keeps)+

lemma gate_ramp_step:
  "signedDistance (r\<lparr>rampState := x\<rparr>) = signedDistance r"
  "signedDistance (r\<lparr>rampState := x, playerRampMode := m, playerBallisticMode := k\<rparr>)
     = signedDistance r"
  by (rule gate_cong; simp)+

lemma engineStep_body: "body (vars (engineStep p b)) = Some b"
  by (simp add: engineStep_def)

lemma rampTicks_after_crossing:
  assumes "computedGateMesh r" and "playerPreviousPos r = Some pp"
    and "0 \<le> signedDistance r pp"
    and "\<forall>(b, e) \<in> set run. 0 \<le> signedDistance r (translation b)"
  shows "EnteredRampMode \<notin> set (rampTicks r p run)
         \<and> GateCrossed Front \<notin> set (rampTicks r p run)"
  using assms
proof (induction run arbitrary: r p pp)
  case Nil
  then show ?case by simp
next
  case (Cons x run)
  obtain b e where x: "x = (b, e)" by (cases x)
  let ?q = "engineStep p b"
  have qb: "body (vars ?q) = Some b" by (rule engineStep_body)
  have sdb: "0 \<le> signedDistance r (translation b)" using Cons.prems(4) x by simp
  have rest: "\<forall>(b, e) \<in> set run. 0 \<le> signedDistance r (translation b)"
    using Cons.prems(4) by simp
  show ?case
  proof (cases "playerRampMode r")
    case True
    let ?res = "stepRampConstraint r (rampState r) (delta e / 1000)"
    let ?p1 = "?q\<lparr>vars := (vars ?q)\<lparr>body :=
                 Some (b\<lparr>translation := newPosition ?res, linvel := newVelocity ?res\<rparr>)\<rparr>\<rparr>"
    show ?thesis
    proof (cases "exitedRamp ?res")
      case ex: True
      let ?r1 = "r\<lparr>rampState := newState ?res, playerRampMode := False,
                    playerBallisticMode := True\<rparr>"
      have u: "RampL_update r (Some ?q) e = (?r1, Some ?p1, [ExitedRampMode])"
        using RampL_update_ramp_mode[OF qb True, of e] ex by (simp add: Let_def)
      have "EnteredRampMode \<notin> set (rampTicks ?r1 ?p1 run)
            \<and> GateCrossed Front \<notin> set (rampTicks ?r1 ?p1 run)"
        using Cons.prems(1,2,3) rest
        by (intro Cons.IH[of ?r1 pp]) (simp_all add: gate_ramp_step)
      then show ?thesis using u x by simp
    next
      case ex: False
      let ?r1 = "r\<lparr>rampState := newState ?res\<rparr>"
      have u: "RampL_update r (Some ?q) e = (?r1, Some ?p1, [])"
        using RampL_update_ramp_mode[OF qb True, of e] ex by (simp add: Let_def)
      have "EnteredRampMode \<notin> set (rampTicks ?r1 ?p1 run)
            \<and> GateCrossed Front \<notin> set (rampTicks ?r1 ?p1 run)"
        using Cons.prems(1,2,3) rest
        by (intro Cons.IH[of ?r1 pp]) (simp_all add: gate_ramp_step)
      then show ?thesis using u x by simp
    qed
  next
    case False
    let ?r1 = "r\<lparr>playerPreviousPos := Some (translation b)\<rparr>"
    have u: "RampL_update r (Some ?q) e = (?r1, Some ?q, [GateCrossed Back])
             \<or> RampL_update r (Some ?q) e = (?r1, Some ?q, [])"
      using RampL_update_gate[OF qb False Cons.prems(1,2), of e] Cons.prems(3)
      by (simp add: Let_def)
    have ih: "EnteredRampMode \<notin> set (rampTicks ?r1 ?q run)
              \<and> GateCrossed Front \<notin> set (rampTicks ?r1 ?q run)"
      using Cons.prems(1) sdb rest
      by (intro Cons.IH[of ?r1 "translation b"]) (simp_all add: gate_prev)
    from u show ?thesis
    proof
      assume "RampL_update r (Some ?q) e = (?r1, Some ?q, [GateCrossed Back])"
      then show ?thesis using ih x by simp
    next
      assume "RampL_update r (Some ?q) e = (?r1, Some ?q, [])"
      then show ?thesis using ih x by simp
    qed
  qed
qed

lemma rampTicks_quiet:
  assumes "computedGateMesh r" and "\<not> playerRampMode r"
    and "playerPreviousPos r = Some pp" and "0 \<le> signedDistance r pp"
    and "\<forall>(b, e) \<in> set run. 0 < signedDistance r (translation b)"
  shows "rampTicks r p run = []"
  using assms
proof (induction run arbitrary: r p pp)
  case Nil
  then show ?case by simp
next
  case (Cons x run)
  obtain b e where x: "x = (b, e)" by (cases x)
  let ?q = "engineStep p b"
  have qb: "body (vars ?q) = Some b" by (rule engineStep_body)
  have sdb: "0 < signedDistance r (translation b)" using Cons.prems(5) x by simp
  have rest: "\<forall>(b, e) \<in> set run. 0 < signedDistance r (translation b)"
    using Cons.prems(5) by simp
  let ?r1 = "r\<lparr>playerPreviousPos := Some (translation b)\<rparr>"
  have u: "RampL_update r (Some ?q) e = (?r1, Some ?q, [])"
    using RampL_update_gate[OF qb Cons.prems(2,1,3), of e] Cons.prems(4) sdb
    by (simp add: Let_def)
  have "rampTicks ?r1 ?q run = []"
    using Cons.prems(1,2) sdb rest
    by (intro Cons.IH[of ?r1 "translation b"]) (simp_all add: gate_prev)
  then show ?case using u x by simp
qed

lemma rampTicks_before_crossing:
  assumes "computedGateMesh r" and "\<not> playerRampMode r"
    and "playerPreviousPos r = Some pp" and "signedDistance r pp < 0"
    and "\<forall>(b, e) \<in> set before. signedDistance r (translation b) < 0"
  shows "\<exists>p' pp'. rampTicks r p (before @ rest)
                     = rampTicks (r\<lparr>playerPreviousPos := Some pp'\<rparr>) p' rest
                   \<and> signedDistance r pp' < 0"
  using assms
proof (induction before arbitrary: r p pp)
  case Nil
  have "r\<lparr>playerPreviousPos := Some pp\<rparr> = r" using Nil.prems(3) by simp
  then show ?case using Nil.prems(4) by (intro exI[of _ p] exI[of _ pp]) simp
next
  case (Cons x before)
  obtain b e where x: "x = (b, e)" by (cases x)
  let ?q = "engineStep p b"
  have qb: "body (vars ?q) = Some b" by (rule engineStep_body)
  have sdb: "signedDistance r (translation b) < 0" using Cons.prems(5) x by simp
  have rest': "\<forall>(b, e) \<in> set before. signedDistance r (translation b) < 0"
    using Cons.prems(5) by simp
  let ?r1 = "r\<lparr>playerPreviousPos := Some (translation b)\<rparr>"
  have u: "RampL_update r (Some ?q) e = (?r1, Some ?q, [])"
    using RampL_update_gate[OF qb Cons.prems(2,1,3), of e] Cons.prems(4) sdb
    by (simp add: Let_def)
  have "\<exists>p' pp'. rampTicks ?r1 ?q (before @ rest)
                     = rampTicks (?r1\<lparr>playerPreviousPos := Some pp'\<rparr>) p' rest
                   \<and> signedDistance ?r1 pp' < 0"
    using Cons.prems(1,2) sdb rest'
    by (intro Cons.IH[of ?r1 "translation b"]) (simp_all add: gate_prev)
  then show ?case using u x by (simp add: gate_prev)
qed


lemma sign_change_iff:
  "(prev \<noteq> 0 \<and> sgn prev \<noteq> sgn sd) \<longleftrightarrow> (prev < 0 \<and> 0 \<le> sd) \<or> (0 < prev \<and> sd \<le> 0)"
  for prev sd :: real
  by (auto simp: sgn_if split: if_splits)

lemma rampTicks_one_traversal:
  assumes "computedGateMesh r" and "\<not> playerRampMode r"
    and "playerPreviousPos r = Some pp" and "signedDistance r pp < 0"
    and "\<forall>(b, e) \<in> set before. signedDistance r (translation b) < 0"
    and "0 \<le> signedDistance r (translation bk)"
    and "withinY r (translation bk)" and "withinWidth r (translation bk)"
    and "\<forall>(b, e) \<in> set after. 0 \<le> signedDistance r (translation b)"
  shows "count_list (rampTicks r p (before @ (bk, ek) # after)) EnteredRampMode = 1
         \<and> count_list (rampTicks r p (before @ (bk, ek) # after)) (GateCrossed Front) = 1"
proof -
  from rampTicks_before_crossing[OF assms(1-5), of p "(bk, ek) # after"]
  obtain p' pp' where
    eq: "rampTicks r p (before @ (bk, ek) # after)
           = rampTicks (r\<lparr>playerPreviousPos := Some pp'\<rparr>) p' ((bk, ek) # after)"
    and neg: "signedDistance r pp' < 0"
    by blast
  let ?r1 = "r\<lparr>playerPreviousPos := Some pp'\<rparr>"
  let ?q = "engineStep p' bk"
  have qb: "body (vars ?q) = Some bk" by (rule engineStep_body)
  let ?r2 = "(fst (enterRampMode ?r1 bk (radius (vars ?q))))
               \<lparr>playerPreviousPos := Some (translation bk)\<rparr>"
  let ?p2 = "?q\<lparr>vars := (vars ?q)\<lparr>body :=
               Some (snd (enterRampMode ?r1 bk (radius (vars ?q))))\<rparr>\<rparr>"
  have u: "RampL_update ?r1 (Some ?q) ek = (?r2, Some ?p2, [GateCrossed Front, EnteredRampMode])"
    using RampL_update_gate[of ?q bk ?r1 pp' ek] qb assms(1,2,6,7,8) neg
    by (simp add: Let_def gate_prev)
  have sd2: "signedDistance ?r2 = signedDistance r"
    by (simp add: gate_prev gate_enter)
  have tail: "EnteredRampMode \<notin> set (rampTicks ?r2 ?p2 after)
              \<and> GateCrossed Front \<notin> set (rampTicks ?r2 ?p2 after)"
    using assms(1,6,9)
    by (intro rampTicks_after_crossing[of ?r2 "translation bk"])
       (simp_all add: sd2 enterRampMode_keeps)
  have "rampTicks r p (before @ (bk, ek) # after)
          = [GateCrossed Front, EnteredRampMode] @ rampTicks ?r2 ?p2 after"
    using eq u by simp
  then show ?thesis using tail by (simp add: count_list_0_iff)
qed

lemma rampTicks_out_of_bounds:
  assumes "computedGateMesh r" and "\<not> playerRampMode r"
    and "playerPreviousPos r = Some pp" and "signedDistance r pp < 0"
    and "\<forall>(b, e) \<in> set before. signedDistance r (translation b) < 0"
    and "0 \<le> signedDistance r (translation bk)"
    and "\<not> (withinY r (translation bk) \<and> withinWidth r (translation bk))"
    and "\<forall>(b, e) \<in> set after. 0 < signedDistance r (translation b)"
  shows "rampTicks r p (before @ (bk, ek) # after) = []"
proof -
  from rampTicks_before_crossing[OF assms(1-5), of p "(bk, ek) # after"]
  obtain p' pp' where
    eq: "rampTicks r p (before @ (bk, ek) # after)
           = rampTicks (r\<lparr>playerPreviousPos := Some pp'\<rparr>) p' ((bk, ek) # after)"
    and neg: "signedDistance r pp' < 0"
    by blast
  let ?r1 = "r\<lparr>playerPreviousPos := Some pp'\<rparr>"
  let ?q = "engineStep p' bk"
  have qb: "body (vars ?q) = Some bk" by (rule engineStep_body)
  let ?r2 = "r\<lparr>playerPreviousPos := Some (translation bk)\<rparr>"
  have u: "RampL_update ?r1 (Some ?q) ek = (?r2, Some ?q, [])"
    using RampL_update_gate[of ?q bk ?r1 pp' ek] qb assms(1,2,7) neg
    by (auto simp: Let_def gate_prev)
  have tail: "rampTicks ?r2 ?q after = []"
    using assms(1,2,6,8)
    by (intro rampTicks_quiet[of ?r2 "translation bk"]) (simp_all add: gate_prev)
  show ?thesis using eq u tail by simp
qed


text \<open>
  C2. In a tick in which ramp mode is not active and a previous player
  position is recorded, a gate crossing is reported exactly when the previous signed
  horizontal distance is negative and the current one non-negative (forward), or the
  previous one is positive and the current one non-positive (backward) - that is,
  when the sign differs and the previous distance is not exactly 0 - and the player
  is within the gate's height and width half-extents. A forward crossing enters ramp
  mode; a backward crossing is reported and changes nothing else; outside the bounds
  nothing is reported; the previous position is refreshed in every such tick. While
  ramp mode is active nothing about the gate is reported and the previous position
  is left as it is. Over a run that is on the negative side, then crosses within
  bounds and stays on the non-negative side, ramp mode is entered exactly once; when
  the crossing is outside the bounds (and the run then stays strictly in front)
  nothing is reported at all.
\<close>

theorem C2_gate_crossing:
  assumes "body (vars p) = Some b" and "computedGateMesh r"
  shows "(\<not> playerRampMode r \<and> playerPreviousPos r = Some pp \<longrightarrow>
           (case RampL_update r (Some p) e of (r', po', evs) \<Rightarrow>
              let pos = translation b;
                  sd = signedDistance r pos;
                  prev = signedDistance r pp;
                  inBounds = (withinY r pos \<and> withinWidth r pos)
              in (evs \<noteq> [] \<longleftrightarrow> prev \<noteq> 0 \<and> sgn prev \<noteq> sgn sd \<and> inBounds)
               \<and> (evs \<noteq> [] \<longleftrightarrow> ((prev < 0 \<and> 0 \<le> sd) \<or> (0 < prev \<and> sd \<le> 0)) \<and> inBounds)
               \<and> (prev < 0 \<and> 0 \<le> sd \<and> inBounds \<longrightarrow>
                    evs = [GateCrossed Front, EnteredRampMode] \<and> playerRampMode r')
               \<and> (0 < prev \<and> sd \<le> 0 \<and> inBounds \<longrightarrow>
                    evs = [GateCrossed Back] \<and> \<not> playerRampMode r' \<and> po' = Some p)
               \<and> (\<not> inBounds \<longrightarrow> evs = [] \<and> \<not> playerRampMode r' \<and> po' = Some p)
               \<and> playerPreviousPos r' = Some pos))
       \<and> (playerRampMode r \<longrightarrow>
           (case RampL_update r (Some p) e of (r', po', evs) \<Rightarrow>
              set evs \<subseteq> {ExitedRampMode} \<and> playerPreviousPos r' = playerPreviousPos r))
       \<and> (\<not> playerRampMode r \<and> playerPreviousPos r = Some pp \<and> signedDistance r pp < 0
            \<and> (\<forall>(b', e') \<in> set before. signedDistance r (translation b') < 0)
            \<and> 0 \<le> signedDistance r (translation bk)
            \<and> withinY r (translation bk) \<and> withinWidth r (translation bk)
            \<and> (\<forall>(b', e') \<in> set after. 0 \<le> signedDistance r (translation b')) \<longrightarrow>
           count_list (rampTicks r p (before @ (bk, ek) # after)) EnteredRampMode = 1
           \<and> count_list (rampTicks r p (before @ (bk, ek) # after)) (GateCrossed Front) = 1)
       \<and> (\<not> playerRampMode r \<and> playerPreviousPos r = Some pp \<and> signedDistance r pp < 0
            \<and> (\<forall>(b', e') \<in> set before. signedDistance r (translation b') < 0)
            \<and> 0 \<le> signedDistance r (translation bk)
            \<and> \<not> (withinY r (translation bk) \<and> withinWidth r (translation bk))
            \<and> (\<forall>(b', e') \<in> set after. 0 < signedDistance r (translation b')) \<longrightarrow>
           rampTicks r p (before @ (bk, ek) # after) = [])"
proof (intro conjI impI)
  assume h: "\<not> playerRampMode r \<and> playerPreviousPos r = Some pp"
  then have nr: "\<not> playerRampMode r" and pv: "playerPreviousPos r = Some pp" by simp_all
  note u = RampL_update_gate[OF assms(1) nr assms(2) pv, of e, unfolded Let_def]
  show "case RampL_update r (Some p) e of (r', po', evs) \<Rightarrow>
              let pos = translation b;
                  sd = signedDistance r pos;
                  prev = signedDistance r pp;
                  inBounds = (withinY r pos \<and> withinWidth r pos)
              in (evs \<noteq> [] \<longleftrightarrow> prev \<noteq> 0 \<and> sgn prev \<noteq> sgn sd \<and> inBounds)
               \<and> (evs \<noteq> [] \<longleftrightarrow> ((prev < 0 \<and> 0 \<le> sd) \<or> (0 < prev \<and> sd \<le> 0)) \<and> inBounds)
               \<and> (prev < 0 \<and> 0 \<le> sd \<and> inBounds \<longrightarrow>
                    evs = [GateCrossed Front, EnteredRampMode] \<and> playerRampMode r')
               \<and> (0 < prev \<and> sd \<le> 0 \<and> inBounds \<longrightarrow>
                    evs = [GateCrossed Back] \<and> \<not> playerRampMode r' \<and> po' = Some p)
               \<and> (\<not> inBounds \<longrightarrow> evs = [] \<and> \<not> playerRampMode r' \<and> po' = Some p)
               \<and> playerPreviousPos r' = Some pos"
    unfolding u Let_def
    using nr by (auto simp: enterRampMode_keeps sgn_if split: if_splits)
next
  assume rm: "playerRampMode r"
  show "case RampL_update r (Some p) e of (r', po', evs) \<Rightarrow>
              set evs \<subseteq> {ExitedRampMode} \<and> playerPreviousPos r' = playerPreviousPos r"
    unfolding RampL_update_ramp_mode[OF assms(1) rm, of e] Let_def by simp
next
  assume "\<not> playerRampMode r \<and> playerPreviousPos r = Some pp \<and> signedDistance r pp < 0
            \<and> (\<forall>(b', e') \<in> set before. signedDistance r (translation b') < 0)
            \<and> 0 \<le> signedDistance r (translation bk)
            \<and> withinY r (translation bk) \<and> withinWidth r (translation bk)
            \<and> (\<forall>(b', e') \<in> set after. 0 \<le> signedDistance r (translation b'))"
  then have t: "count_list (rampTicks r p (before @ (bk, ek) # after)) EnteredRampMode = 1
           \<and> count_list (rampTicks r p (before @ (bk, ek) # after)) (GateCrossed Front) = 1"
    using assms(2) by (intro rampTicks_one_traversal[of r pp]) simp_all
  from t show "count_list (rampTicks r p (before @ (bk, ek) # after)) EnteredRampMode = 1"
    by simp
  from t show "count_list (rampTicks r p (before @ (bk, ek) # after)) (GateCrossed Front) = 1"
    by simp
next
  assume "\<not> playerRampMode r \<and> playerPreviousPos r = Some pp \<and> signedDistance r pp < 0
            \<and> (\<forall>(b', e') \<in> set before. signedDistance r (translation b') < 0)
            \<and> 0 \<le> signedDistance r (translation bk)
            \<and> \<not> (withinY r (translation bk) \<and> withinWidth r (translation bk))
            \<and> (\<forall>(b', e') \<in> set after. 0 < signedDistance r (translation b'))"
  then show "rampTicks r p (before @ (bk, ek) # after) = []"
    using assms(2) by (intro rampTicks_out_of_bounds[of r pp]) simp_all
qed


lemma RampL_gate_values:
  "signedDistance (RampL\<lparr>playerPreviousPos := pv\<rparr>) (Vector3 x1 y1 z1) = x1 - 236"
  "withinY (RampL\<lparr>playerPreviousPos := pv\<rparr>) (Vector3 x1 y1 z1) \<longleftrightarrow> - 223 \<le> y1 \<and> y1 \<le> - 193"
  "withinWidth (RampL\<lparr>playerPreviousPos := pv\<rparr>) (Vector3 x1 y1 z1) \<longleftrightarrow> \<bar>z1\<bar> \<le> 20"
  "computedGateMesh (RampL\<lparr>playerPreviousPos := pv\<rparr>)"
  "\<not> playerRampMode (RampL\<lparr>playerPreviousPos := pv\<rparr>)"
  by (simp_all add: signedDistance_def withinY_def withinWidth_def lateralDistance_def
        dot_def RampL_def)

theorem C2_gate_crossing_witness:
  "snd (snd (RampL_update (RampL\<lparr>playerPreviousPos := Some (Vector3 235 (- 208) 0)\<rparr>)
       (Some (engineStep Player ((bodyAt 0)\<lparr>translation := Vector3 237 (- 208) 0\<rparr>))) env0))
     = [GateCrossed Front, EnteredRampMode]
   \<and> playerRampMode (fst (RampL_update (RampL\<lparr>playerPreviousPos := Some (Vector3 235 (- 208) 0)\<rparr>)
       (Some (engineStep Player ((bodyAt 0)\<lparr>translation := Vector3 237 (- 208) 0\<rparr>))) env0))
   \<and> count_list (rampTicks (RampL\<lparr>playerPreviousPos := Some (Vector3 235 (- 208) 0)\<rparr>)
         (engineStep Player ((bodyAt 0)\<lparr>translation := Vector3 237 (- 208) 0\<rparr>))
         ([] @ ((bodyAt 0)\<lparr>translation := Vector3 237 (- 208) 0\<rparr>, env0)
             # [((bodyAt 0)\<lparr>translation := Vector3 238 (- 208) 0\<rparr>, env0)]))
       EnteredRampMode = 1"
proof -
  let ?r = "RampL\<lparr>playerPreviousPos := Some (Vector3 235 (- 208) 0)\<rparr>"
  let ?b = "(bodyAt 0)\<lparr>translation := Vector3 237 (- 208) 0\<rparr>"
  let ?b' = "(bodyAt 0)\<lparr>translation := Vector3 238 (- 208) 0\<rparr>"
  let ?p = "engineStep Player ?b"
  have b: "body (vars ?p) = Some ?b" by (rule engineStep_body)
  have m: "computedGateMesh ?r" by (rule RampL_gate_values)
  have pv: "playerPreviousPos ?r = Some (Vector3 235 (- 208) 0)" by simp
  have t: "translation ?b = Vector3 237 (- 208) 0" "translation ?b' = Vector3 238 (- 208) 0"
    by simp_all
  have nr: "\<not> playerRampMode RampL" by (simp add: RampL_def)
  have h1: "\<not> playerRampMode ?r \<and> playerPreviousPos ?r = Some (Vector3 235 (- 208) 0)"
    using nr by simp
  have h3: "\<not> playerRampMode ?r \<and> playerPreviousPos ?r = Some (Vector3 235 (- 208) 0)
            \<and> signedDistance ?r (Vector3 235 (- 208) 0) < 0
            \<and> (\<forall>(b', e') \<in> set []. signedDistance ?r (translation b') < 0)
            \<and> 0 \<le> signedDistance ?r (translation ?b)
            \<and> withinY ?r (translation ?b) \<and> withinWidth ?r (translation ?b)
            \<and> (\<forall>(b', e') \<in> set [(?b', env0)]. 0 \<le> signedDistance ?r (translation b'))"
    using nr by (simp add: RampL_gate_values)
  note C = C2_gate_crossing[OF b m, of "Vector3 235 (- 208) 0" env0 "[]" ?b "[(?b', env0)]" env0]
  note c1 = C[THEN conjunct1, THEN mp, OF h1]
  have a: "snd (snd (RampL_update ?r (Some ?p) env0)) = [GateCrossed Front, EnteredRampMode]
           \<and> playerRampMode (fst (RampL_update ?r (Some ?p) env0))"
    using c1 by (cases "RampL_update ?r (Some ?p) env0") (simp add: Let_def RampL_gate_values)
  note c3 = C[THEN conjunct2, THEN conjunct2, THEN conjunct1, THEN mp, OF h3]
  from a c3 show ?thesis by simp
qed

theorem C2_sign_change_counterexample:
  "signedDistance RampL (Vector3 236 (- 208) 0) = 0
   \<and> signedDistance RampL (Vector3 237 (- 208) 0) = 1
   \<and> withinY RampL (Vector3 237 (- 208) 0) \<and> withinWidth RampL (Vector3 237 (- 208) 0)
   \<and> withinY RampL (Vector3 236 (- 208) 0) \<and> withinWidth RampL (Vector3 236 (- 208) 0)
   \<and> snd (snd (RampL_update (RampL\<lparr>playerPreviousPos := Some (Vector3 236 (- 208) 0)\<rparr>)
        (Some (engineStep Player ((bodyAt 0)\<lparr>translation := Vector3 237 (- 208) 0\<rparr>))) env0))
      = []
   \<and> snd (snd (RampL_update (RampL\<lparr>playerPreviousPos := Some (Vector3 237 (- 208) 0)\<rparr>)
        (Some (engineStep Player ((bodyAt 0)\<lparr>translation := Vector3 236 (- 208) 0\<rparr>))) env0))
      = [GateCrossed Back]"
proof -
  have v: "signedDistance RampL (Vector3 236 (- 208) 0) = 0"
    "signedDistance RampL (Vector3 237 (- 208) 0) = 1"
    "withinY RampL (Vector3 237 (- 208) 0)" "withinWidth RampL (Vector3 237 (- 208) 0)"
    "withinY RampL (Vector3 236 (- 208) 0)" "withinWidth RampL (Vector3 236 (- 208) 0)"
    by (simp_all add: signedDistance_def withinY_def withinWidth_def lateralDistance_def
          dot_def RampL_def)
  let ?r1 = "RampL\<lparr>playerPreviousPos := Some (Vector3 236 (- 208) 0)\<rparr>"
  let ?b1 = "(bodyAt 0)\<lparr>translation := Vector3 237 (- 208) 0\<rparr>"
  let ?r2 = "RampL\<lparr>playerPreviousPos := Some (Vector3 237 (- 208) 0)\<rparr>"
  let ?b2 = "(bodyAt 0)\<lparr>translation := Vector3 236 (- 208) 0\<rparr>"
  have e1: "snd (snd (RampL_update ?r1 (Some (engineStep Player ?b1)) env0)) = []"
    using RampL_update_gate[of "engineStep Player ?b1" ?b1 ?r1 "Vector3 236 (- 208) 0" env0]
    by (simp add: engineStep_body RampL_gate_values Let_def)
  have e2: "snd (snd (RampL_update ?r2 (Some (engineStep Player ?b2)) env0)) = [GateCrossed Back]"
    using RampL_update_gate[of "engineStep Player ?b2" ?b2 ?r2 "Vector3 237 (- 208) 0" env0]
    by (simp add: engineStep_body RampL_gate_values Let_def)
  show ?thesis using v e1 e2 by simp
qed

subsection \<open>The ramp solver and the mode controllers in one tick\<close>

lemma World_update_ramp_mode:
  assumes "wplayer w = Some p" and "body (vars p) = Some b"
    and "wrampL w = Some r" and "playerRampMode r"
  shows "\<exists>p1 b1 h r' b'.
           Player_update p e = Inr (p1, [h]) \<and> body (vars p1) = Some b1
         \<and> World_update w e =
             Inr (\<lparr> wplayer = Some (p1\<lparr>vars := (vars p1)\<lparr>body := Some b'\<rparr>\<rparr>),
                    wrampL = Some r' \<rparr>, [h],
                  if exitedRamp (stepRampConstraint r (rampState r) (delta e / 1000))
                  then [ExitedRampMode] else [])
         \<and> b' = b1\<lparr>translation :=
                      newPosition (stepRampConstraint r (rampState r) (delta e / 1000)),
                    linvel :=
                      newVelocity (stepRampConstraint r (rampState r) (delta e / 1000))\<rparr>"
proof -
  from Player_update_dispatch[OF assms(2), of e] obtain p1 b1 h where
    u: "Player_update p e = Inr (p1, [h])" and b1: "body (vars p1) = Some b1"
    by blast
  note ru = RampL_update_ramp_mode[OF b1 assms(4), of e, unfolded Let_def]
  show ?thesis
    using u b1 assms(1,3)
    by (auto simp: World_update_def ru)
qed

lemma steering_body:
  "body (vars steering) = Some ((bodyAt 0)\<lparr>translation := Vector3 230 (- 214) 0\<rparr>)"
  by (simp add: steering_def engineStep_def Let_def)

lemma steering_air:
  "Player_update steering lookingAcross =
     Inr (steering\<lparr>vars := (vars steering)\<lparr>
            isGrounded := False,
            body := Some ((bodyAt 0)\<lparr>translation := Vector3 230 (- 214) 0,
                                     linvel := Vector3 0 0 1\<rparr>),
            lastVelocity := Vector3 0 0 0\<rparr>\<rparr>, [AirModeUpdate])"
proof -
  let ?b = "(bodyAt 0)\<lparr>translation := Vector3 230 (- 214) 0\<rparr>"
  have o: "\<not> fst (isInOcean steering)"
    unfolding isInOcean_fst[OF steering_body]
    by (simp add: steering_def engineStep_def Let_def createBody_def Player_def OceanMode_def)
  have f: "\<not> isFlying (vars steering)" "collider (vars steering)"
    "keys (vars steering) = \<lparr> key_w = True, key_s = False, key_a = False, key_d = False,
                                key_space = False \<rparr>"
    "airControlStrength (vars steering) = 1"
    by (simp_all add: steering_def engineStep_def Let_def createBody_def Player_def
          PlayerVariables_def)
  have cg: "checkGrounded steering (contacts lookingAcross)
              = steering\<lparr>vars := (vars steering)\<lparr>isGrounded := False\<rparr>\<rparr>"
    using f(2) by (simp add: checkGrounded_collider lookingAcross_def env0_def)
  have om: "(oceanMode steering)\<lparr>isActive := False\<rparr> = oceanMode steering"
    by (simp add: steering_def engineStep_def Let_def createBody_def Player_def OceanMode_def)
  have n: "normalize (Vector3 0 0 1) = Vector3 0 0 1"
    by (simp add: normalize_def length3_def lengthSq_def Let_def)
  show ?thesis
    unfolding Player_update_unfold[OF steering_body] Let_def cg
    using o f steering_body
    by (simp add: om AirMode_update_def Let_def lookingAcross_def env0_def n applyImpulse_def
          addv_def multiplyScalar_def bodyAt_def)
qed


text \<open>
  C9. In a tick in which ramp mode is active and the body exists,
  \<open>World.update\<close> first runs \<open>Player.update\<close>, which calls one mode controller as
  in any other tick (nothing looks at ramp mode there, so the controller can change
  the body), and then runs the ramp solver, which overwrites the translation and the
  linear velocity of the body with the values it computes from the ramp state alone.
  At the end of the tick the translation and the linear velocity are the solver's,
  whatever the mode controller did; the other fields of the body are as the mode
  controller left them.
\<close>

theorem C9_solver_writes_last:
  assumes "wplayer w = Some p" and "body (vars p) = Some b"
    and "wrampL w = Some r" and "playerRampMode r"
  shows "\<exists>w' h evs p1 b1 p' b'.
           Player_update p e = Inr (p1, [h]) \<and> body (vars p1) = Some b1
         \<and> World_update w e = Inr (w', [h], evs)
         \<and> wplayer w' = Some p' \<and> body (vars p') = Some b'
         \<and> translation b' = newPosition (stepRampConstraint r (rampState r) (delta e / 1000))
         \<and> linvel b' = newVelocity (stepRampConstraint r (rampState r) (delta e / 1000))
         \<and> angvel b' = angvel b1 \<and> rotation b' = rotation b1
         \<and> gravityScale b' = gravityScale b1"
proof -
  from World_update_ramp_mode[OF assms, of e] obtain p1 b1 h r' b' where
    "Player_update p e = Inr (p1, [h])" "body (vars p1) = Some b1"
    "World_update w e =
             Inr (\<lparr> wplayer = Some (p1\<lparr>vars := (vars p1)\<lparr>body := Some b'\<rparr>\<rparr>),
                    wrampL = Some r' \<rparr>, [h],
                  if exitedRamp (stepRampConstraint r (rampState r) (delta e / 1000))
                  then [ExitedRampMode] else [])"
    "b' = b1\<lparr>translation :=
                      newPosition (stepRampConstraint r (rampState r) (delta e / 1000)),
                    linvel :=
                      newVelocity (stepRampConstraint r (rampState r) (delta e / 1000))\<rparr>"
    by blast
  then show ?thesis by auto
qed

theorem C9_solver_writes_last_witness:
  "translation (the (body (vars (the (wplayer
       (fst (projr (World_update rampWorld lookingAcross))))))))
     = newPosition (stepRampConstraint onRamp (rampState onRamp) (delta lookingAcross / 1000))
   \<and> linvel (the (body (vars (the (wplayer
       (fst (projr (World_update rampWorld lookingAcross))))))))
     = newVelocity (stepRampConstraint onRamp (rampState onRamp) (delta lookingAcross / 1000))"
proof -
  have rm: "playerRampMode onRamp" by (simp add: onRamp_def)
  have w: "wplayer rampWorld = Some steering" "wrampL rampWorld = Some onRamp"
    by (simp_all add: rampWorld_def)
  from C9_solver_writes_last[OF w(1) steering_body w(2) rm, of lookingAcross]
  show ?thesis by auto
qed

theorem C9_handler_and_solver_counterexample:
  "playerRampMode onRamp
   \<and> wplayer rampWorld = Some steering \<and> wrampL rampWorld = Some onRamp
   \<and> map_option linvel (body (vars steering)) = Some (Vector3 0 0 0)
   \<and> snd (projr (Player_update steering lookingAcross)) = [AirModeUpdate]
   \<and> map_option linvel (body (vars (fst (projr (Player_update steering lookingAcross)))))
       = Some (Vector3 0 0 1)
   \<and> \<not> isl (World_update rampWorld lookingAcross)
   \<and> fst (snd (projr (World_update rampWorld lookingAcross))) = [AirModeUpdate]
   \<and> translation (the (body (vars (the (wplayer
         (fst (projr (World_update rampWorld lookingAcross)))))))) 
       = newPosition (stepRampConstraint onRamp (rampState onRamp) (16 / 1000))
   \<and> vz (linvel (the (body (vars (the (wplayer
         (fst (projr (World_update rampWorld lookingAcross))))))))) = 0"
proof -
  let ?b1 = "(bodyAt 0)\<lparr>translation := Vector3 230 (- 214) 0, linvel := Vector3 0 0 1\<rparr>"
  let ?p1 = "steering\<lparr>vars := (vars steering)\<lparr>isGrounded := False, body := Some ?b1,
                                              lastVelocity := Vector3 0 0 0\<rparr>\<rparr>"
  have rm: "playerRampMode onRamp" by (simp add: onRamp_def)
  have w: "wplayer rampWorld = Some steering" "wrampL rampWorld = Some onRamp"
    by (simp_all add: rampWorld_def)
  have b1: "body (vars ?p1) = Some ?b1" by simp
  have d: "delta lookingAcross / 1000 = 16 / 1000" by (simp add: lookingAcross_def env0_def)
  have vz0: "vz (newVelocity (stepRampConstraint onRamp (rampState onRamp) (16 / 1000))) = 0"
    using stepRampConstraint_writes[of onRamp "rampState onRamp" "16 / 1000"]
    by (simp add: Let_def onRamp_def RampL_def)
  note ru = RampL_update_ramp_mode[OF b1 rm, of lookingAcross, unfolded Let_def d]
  have wu: "World_update rampWorld lookingAcross =
              Inr (case RampL_update onRamp (Some ?p1) lookingAcross of
                     (r', po', evs) \<Rightarrow>
                       (\<lparr> wplayer = po', wrampL = Some r' \<rparr>, [AirModeUpdate], evs))"
    by (simp add: World_update_def w steering_air split_beta)
  show ?thesis
    unfolding wu ru
    using rm w vz0 by (simp add: steering_air steering_body bodyAt_def)
qed

end
